theory Spec2Isabelle
  imports Complex_Main "HOL-Library.Multiset" "HOL-Library.Log_Nat"
begin

section \<open>Shuffle utility (utils/shuffle)\<close>

text \<open>
  \<^verbatim>\<open>
  export function shuffleInPlace<T>(arr: T[], startIndex = 0): void {
    for (let i = arr.length - 1; i > startIndex; i--) {
      const j = Math.floor(Math.random() * (i - startIndex + 1)) + startIndex;
      [arr[i], arr[j]] = [arr[j], arr[i]];
    }
  }
  \<close>
  \<open>startIndex\<close> is a number, and nothing in the function restricts it: it is a rational
  here, so that a negative and a fractional start index can be given. With such a start
  index \<open>j\<close> is not an index of the array, and \<open>arr[j]\<close> is a property of the array object
  beside its cells. An array is therefore its cells, each holding a value or
  \<open>undefined\<close> (\<open>None\<close>), and its other properties, by their numeric key.
\<close>

record 'a JsArray =
  cells :: "'a option list"
  props :: "rat \<rightharpoonup> 'a option"

definition isInteger :: "rat \<Rightarrow> bool" where
  "isInteger k = (of_int \<lfloor>k\<rfloor> = k)"

text \<open>
  The read \<open>arr[k]\<close>: the cell when \<open>k\<close> is an index below the length, the property of
  that key otherwise, and \<open>undefined\<close> when there is none. (Array lengths are below
  \<open>2^32\<close>, so every integer from \<open>0\<close> to the length is an array index.)
\<close>

definition getAt :: "'a JsArray \<Rightarrow> rat \<Rightarrow> 'a option" where
  "getAt arr k =
     (if isInteger k \<and> 0 \<le> k \<and> nat \<lfloor>k\<rfloor> < length (cells arr)
      then cells arr ! nat \<lfloor>k\<rfloor>
      else (case props arr k of None \<Rightarrow> None | Some v \<Rightarrow> v))"

text \<open>
  The write \<open>arr[k] = v\<close>: into the cell when \<open>k\<close> is an index below the length; an index
  from the length on extends the array, the cells between being holes, which read as
  \<open>undefined\<close>; any other key sets a property beside the cells.
\<close>

definition setAt :: "'a JsArray \<Rightarrow> rat \<Rightarrow> 'a option \<Rightarrow> 'a JsArray" where
  "setAt arr k v =
     (if isInteger k \<and> 0 \<le> k
      then (if nat \<lfloor>k\<rfloor> < length (cells arr)
            then arr\<lparr>cells := (cells arr)[nat \<lfloor>k\<rfloor> := v]\<rparr>
            else arr\<lparr>cells := cells arr
                                @ replicate (nat \<lfloor>k\<rfloor> - length (cells arr)) None @ [v]\<rparr>)
      else arr\<lparr>props := (props arr)(k \<mapsto> v)\<rparr>)"

text \<open>
  The function returns the array it leaves behind. \<open>Math.random()\<close> is the one effect:
  the draws are an explicit argument \<open>rnd\<close>, and the draw of the iteration with loop
  index \<open>i\<close> is \<open>rnd i\<close> (each loop index is visited once). For \<open>m > 0\<close>,
  \<open>Math.floor(Math.random() * m)\<close> is an integer \<open>k\<close> with \<open>0 \<le> k < m\<close>, any of them; it is
  written \<open>rnd i mod \<lceil>m\<rceil>\<close>, so that every \<open>rnd\<close> is a possible run and every possible
  run is some \<open>rnd\<close>. In the loop \<open>m = i - startIndex + 1\<close> is above \<open>1\<close>. The
  subtraction and the two additions are those of the rationals, which is what double
  precision gives for an integer start index and for the start indices of the
  examples below.

  The destructuring assignment reads \<open>arr[j]\<close> and \<open>arr[i]\<close> before it writes: \<open>arr[i]\<close>
  gets the old \<open>arr[j]\<close>, then \<open>arr[j]\<close> the old \<open>arr[i]\<close>. The loop index starts at
  \<open>arr.length - 1\<close>, which is \<open>-1\<close> for the empty array, and goes below \<open>0\<close> when
  \<open>startIndex\<close> is below \<open>-1\<close>.
\<close>

function shuffle_loop :: "(int \<Rightarrow> nat) \<Rightarrow> rat \<Rightarrow> int \<Rightarrow> 'a JsArray \<Rightarrow> 'a JsArray" where
  "shuffle_loop rnd startIndex i arr =
     (if of_int i > startIndex
      then (let j = of_nat (rnd i mod nat \<lceil>of_int i - startIndex + 1\<rceil>) + startIndex;
                newI = getAt arr j;
                newJ = getAt arr (of_int i)
            in shuffle_loop rnd startIndex (i - 1) (setAt (setAt arr (of_int i) newI) j newJ))
      else arr)"
  by pat_completeness auto
termination
proof (relation "measure (\<lambda>(rnd, startIndex, i, arr). nat (i - \<lfloor>startIndex\<rfloor>))")
  show "wf (measure (\<lambda>(rnd, startIndex, i, arr). nat (i - \<lfloor>startIndex :: rat\<rfloor>)))"
    by simp
next
  fix rnd :: "int \<Rightarrow> nat" and startIndex :: rat and i :: int and arr x xa xb
  assume "startIndex < of_int i"
  then have "\<lfloor>startIndex\<rfloor> < i" by linarith
  then show "((rnd, startIndex, i - 1, setAt (setAt arr (of_int i) xa) x xb),
              (rnd, startIndex, i, arr))
             \<in> measure (\<lambda>(rnd, startIndex, i, arr). nat (i - \<lfloor>startIndex\<rfloor>))"
    by simp
qed

declare shuffle_loop.simps [simp del]

definition shuffleInPlace :: "(int \<Rightarrow> nat) \<Rightarrow> 'a JsArray \<Rightarrow> rat \<Rightarrow> 'a JsArray" where
  "shuffleInPlace rnd arr startIndex =
     shuffle_loop rnd startIndex (int (length (cells arr)) - 1) arr"

text \<open>
  The array of the values of a list, every cell holding a value and no property beside
  the cells: what an array literal or \<open>[...order]\<close> makes.
\<close>

definition arrayOf :: "'a list \<Rightarrow> 'a JsArray" where
  "arrayOf xs = \<lparr>cells = map Some xs, props = Map.empty\<rparr>"

text \<open>
  \<open>shuffleInPlace\<close> at a start index that is a natural number, as a function on the list
  of the cells: every \<open>i\<close> and \<open>j\<close> of the loop is then an index inside the array, and the
  array has no other part that changes (\<open>shuffleInPlace_natural\<close> below proves that the
  two agree). The session calls \<open>shuffleInPlace\<close> with the start index \<open>0\<close> only, on
  arrays of card indices, and is written with this form. Its loop index is a natural
  number: it starts at \<open>0\<close> for the empty array, where the loop test fails as it does
  for \<open>-1\<close>.
\<close>

function shuffleList_loop :: "(nat \<Rightarrow> nat) \<Rightarrow> nat \<Rightarrow> nat \<Rightarrow> 'a list \<Rightarrow> 'a list" where
  "shuffleList_loop rnd startIndex i arr =
     (if i > startIndex
      then (let j = rnd i mod (i - startIndex + 1) + startIndex
            in shuffleList_loop rnd startIndex (i - 1) (arr[i := arr ! j, j := arr ! i]))
      else arr)"
  by pat_completeness auto
termination
  by (relation "measure (\<lambda>(rnd, startIndex, i, arr). i)") auto

declare shuffleList_loop.simps [simp del]

definition shuffleList :: "(nat \<Rightarrow> nat) \<Rightarrow> 'a list \<Rightarrow> nat \<Rightarrow> 'a list" where
  "shuffleList rnd arr startIndex = shuffleList_loop rnd startIndex (length arr - 1) arr"

section \<open>Deck model (utils/storage)\<close>

text \<open>
  \<^verbatim>\<open>
  export type CardItem = { q: string; a: string; archived?: boolean };
  export type Deck = {
    schemaVersion: 1;
    name: string;
    cards: CardItem[];
    defaults: { direction: "Q2A" | "A2Q"; shuffle: boolean };
  };
  \<close>
  The optional field \<open>archived\<close> is an option: \<open>None\<close> is the absent field. The field
  \<open>schemaVersion\<close> has the literal type \<open>1\<close>, a type of one value, and is left out of the
  record; it comes back when a deck is written as a document. A string is a list of
  code units, here of 8 bits.
\<close>

datatype Direction = Q2A | A2Q

record CardItem =
  q :: string
  a :: string
  archived :: "bool option"

record Defaults =
  direction :: Direction
  shuffle :: bool

record Deck =
  name :: string
  cards :: "CardItem list"
  defaults :: Defaults

text \<open>
  \<open>Array.prototype.map\<close> with the two-argument callback \<open>(element, index)\<close>. Indices stay
  integers, since the callers use \<open>-1\<close> as a marker.
\<close>

definition mapi :: "('a \<Rightarrow> int \<Rightarrow> 'b) \<Rightarrow> 'a list \<Rightarrow> 'b list" where
  "mapi f xs = map (\<lambda>i. f (xs ! i) (int i)) [0..<length xs]"

text \<open>
  \<open>String.prototype.trim\<close> removes white space and line terminators from both ends. Among
  the 8-bit code units these are TAB, LF, VT, FF, CR, SP and NBSP.
\<close>

definition isWhiteSpace :: "char \<Rightarrow> bool" where
  "isWhiteSpace c = (of_char c \<in> {9, 10, 11, 12, 13, 32, 160 :: nat})"

definition trim :: "string \<Rightarrow> string" where
  "trim s = rev (dropWhile isWhiteSpace (rev (dropWhile isWhiteSpace s)))"

section \<open>Study session (components/StudyView)\<close>

text \<open>
  \<^verbatim>\<open>
  function getActiveIndices(cards: Deck["cards"]): number[] {
    return cards
      .map((card, index) => {
        const isArchived = card.archived;
        const hasContent = (card.q.trim() + card.a.trim()).length > 0;
        return !isArchived && hasContent ? index : -1;
      })
      .filter((index) => index >= 0);
  }
  \<close>
  \<open>!isArchived\<close> holds for \<open>false\<close> and for the absent field.
\<close>

definition getActiveIndices :: "CardItem list \<Rightarrow> int list" where
  "getActiveIndices cs =
     filter (\<lambda>index. index \<ge> 0)
       (mapi (\<lambda>card index.
                let isArchived = archived card;
                    hasContent = (length (trim (q card) @ trim (a card)) > 0)
                in if isArchived \<noteq> Some True \<and> hasContent then index else -1) cs)"

text \<open>
  The component's state: the \<open>deck\<close> prop (the state of the parent \<open>App\<close>, which
  \<open>onSave\<close> replaces) and the four \<open>useState\<close> cells.
\<close>

record Session =
  deck :: Deck
  order :: "int list"
  cursor :: int
  flipped :: bool
  sdirection :: Direction

text \<open>
  \<^verbatim>\<open>
  const done = cursor >= order.length;
  const currentIndex = done ? null : order[cursor];
  \<close>
  Reading an array at a negative index gives \<open>undefined\<close>, which is not \<open>null\<close>.
  The flag \<open>done\<close> is named \<open>isDone\<close> here.
\<close>

definition isDone :: "Session \<Rightarrow> bool" where
  "isDone s = (cursor s \<ge> int (length (order s)))"

datatype CurrentIndex = Null | Undefined | Index int

definition currentIndex :: "Session \<Rightarrow> CurrentIndex" where
  "currentIndex s =
     (if isDone s then Null
      else if 0 \<le> cursor s then Index (order s ! nat (cursor s))
      else Undefined)"

text \<open>
  The deck-change effect, which React runs after the first render and after every
  render in which the \<open>deck\<close> prop is a new object:
  \<^verbatim>\<open>
  React.useEffect(() => {
    const indices = getActiveIndices(deck.cards);
    if (deck.defaults.shuffle) { shuffleInPlace(indices, 0); }
    setOrder(indices); setCursor(0); setFlipped(false);
    setDirection(deck.defaults.direction);
  }, [deck]);
  \<close>
  The call of \<open>shuffleInPlace\<close> has the start index \<open>0\<close>: it is \<open>shuffleList\<close> at \<open>0\<close>.
\<close>

definition deckEffect :: "(nat \<Rightarrow> nat) \<Rightarrow> Session \<Rightarrow> Session" where
  "deckEffect rnd s =
     (let indices = getActiveIndices (cards (deck s));
          indices' = (if shuffle (defaults (deck s)) then shuffleList rnd indices 0
                      else indices)
      in s\<lparr>order := indices', cursor := 0, flipped := False,
           sdirection := direction (defaults (deck s))\<rparr>)"

text \<open>
  Session initialisation: the \<open>useState\<close> initial values of the first render, followed
  by the deck-change effect.
\<close>

definition initSession :: "(nat \<Rightarrow> nat) \<Rightarrow> Deck \<Rightarrow> Session" where
  "initSession rnd d =
     deckEffect rnd
       \<lparr>deck = d, order = getActiveIndices (cards d), cursor = 0, flipped = False,
        sdirection = direction (defaults d)\<rparr>"

text \<open>
  \<^verbatim>\<open>
  const flipCard = () => { setFlipped((previous) => !previous); };
  const goToNext = () => {
    if (done) return;
    setCursor((previous) => {
      const nextCursor = previous + 1;
      return nextCursor > order.length ? order.length : nextCursor;
    });
    setFlipped(false);
  };
  const goToPrevious = () => {
    setCursor((previous) => (previous <= 0 ? 0 : previous - 1));
    setFlipped(false);
  };
  const reshuffleAll = () => {
    const shuffled = [...order];
    shuffleInPlace(shuffled, 0);
    setOrder(shuffled); setCursor(0); setFlipped(false);
  };
  setDirection((previous) => (previous === "Q2A" ? "A2Q" : "Q2A"))
  \<close>
  \<open>[...order]\<close> is a copy of \<open>order\<close>, and the call of \<open>shuffleInPlace\<close> on it, with the
  start index \<open>0\<close>, is \<open>shuffleList\<close> at \<open>0\<close>.
\<close>

definition flipCard :: "Session \<Rightarrow> Session" where
  "flipCard s = s\<lparr>flipped := \<not> flipped s\<rparr>"

definition goToNext :: "Session \<Rightarrow> Session" where
  "goToNext s =
     (if isDone s then s
      else s\<lparr>cursor := (let nextCursor = cursor s + 1
                        in if nextCursor > int (length (order s)) then int (length (order s))
                           else nextCursor),
             flipped := False\<rparr>)"

definition goToPrevious :: "Session \<Rightarrow> Session" where
  "goToPrevious s = s\<lparr>cursor := (if cursor s \<le> 0 then 0 else cursor s - 1), flipped := False\<rparr>"

definition reshuffleAll :: "(nat \<Rightarrow> nat) \<Rightarrow> Session \<Rightarrow> Session" where
  "reshuffleAll rnd s =
     s\<lparr>order := shuffleList rnd (order s) 0, cursor := 0, flipped := False\<rparr>"

definition toggleDirection :: "Session \<Rightarrow> Session" where
  "toggleDirection s = s\<lparr>sdirection := (if sdirection s = Q2A then A2Q else Q2A)\<rparr>"

text \<open>
  \<^verbatim>\<open>
  const archiveCurrentCard = () => {
    if (done || currentIndex === null) return;
    const updatedDeck: Deck = {
      ...deck,
      cards: deck.cards.map((card, index) =>
        index === currentIndex ? { ...card, archived: true } : card),
    };
    onSave(updatedDeck, "Card archived");
    const updatedOrder = order.filter((index) => index !== currentIndex);
    setOrder(updatedOrder);
    setFlipped(false);
    if (cursor >= updatedOrder.length) {
      const nextCursor = Math.max(0, updatedOrder.length - 1);
      setCursor(nextCursor);
    }
  };
  \<close>
  \<open>onSave\<close> is \<open>App\<close>'s \<open>save\<close>, whose \<open>setDeck(updatedDeck)\<close> makes \<open>updatedDeck\<close> the
  \<open>deck\<close> prop of the next render. \<open>archiveCurrentCard\<close> is the handler alone: the state
  of the render that follows it.
\<close>

definition archiveCurrentCard :: "Session \<Rightarrow> Session" where
  "archiveCurrentCard s =
     (if isDone s \<or> currentIndex s = Null then s
      else
        let updatedDeck =
              (deck s)\<lparr>cards := mapi (\<lambda>card index. if Index index = currentIndex s
                                                    then card\<lparr>archived := Some True\<rparr>
                                                    else card) (cards (deck s))\<rparr>;
            updatedOrder = filter (\<lambda>index. Index index \<noteq> currentIndex s) (order s)
        in s\<lparr>deck := updatedDeck, order := updatedOrder, flipped := False,
              cursor := (if cursor s \<ge> int (length updatedOrder)
                         then max 0 (int (length updatedOrder) - 1)
                         else cursor s)\<rparr>)"

text \<open>
  The whole operation: when the handler has called \<open>onSave\<close>, the \<open>deck\<close> prop of the
  next render is a new object, so the deck-change effect runs after that render and
  the session is initialised again from the updated deck.
\<close>

definition archiveCurrent :: "(nat \<Rightarrow> nat) \<Rightarrow> Session \<Rightarrow> Session" where
  "archiveCurrent rnd s =
     (if isDone s \<or> currentIndex s = Null then s
      else deckEffect rnd (archiveCurrentCard s))"

text \<open>
  Progress accounting. \<open>activeIndices\<close> is memoised on \<open>deck.cards\<close>, so it is always the
  active-index list of the deck of the current render.
  \<^verbatim>\<open>
  const activeIndices = React.useMemo(() => getActiveIndices(deck.cards), [deck.cards]);
  const totalActive = activeIndices.length;
  const remaining = done ? 0 : order.length - cursor;
  const learned = totalActive - remaining;
  const progressPercent =
    totalActive === 0 ? 0 : Math.round((learned / totalActive) * 100);
  \<close>
  A JavaScript number is a binary64 floating-point value. Lengths, indices and the
  cursor are integers far below \<open>2^53\<close>, on which \<open>+\<close> and \<open>-\<close> are exact: they are
  \<open>int\<close> here. The quotient and the product of \<open>progressPercent\<close> are rounded: the
  value of a finite double is a rational, and \<open>toDouble x\<close> is the double nearest to
  the rational \<open>x\<close>, a multiple of \<open>2^(e - 52)\<close> for the binary exponent \<open>e\<close> of \<open>x\<close>, ties
  going to the even multiple. The exponent range is not bounded (no overflow, no
  subnormal numbers): quotients of array lengths are far inside the normal range.
  \<open>Math.round\<close> gives the nearest integer, ties going up.
\<close>

definition roundTiesToEven :: "rat \<Rightarrow> int" where
  "roundTiesToEven x =
     (let f = \<lfloor>x\<rfloor>; r = x - of_int f
      in if r < 1 / 2 then f else if r > 1 / 2 then f + 1 else if even f then f else f + 1)"

text \<open>The binary exponent of \<open>x \<noteq> 0\<close>: the \<open>e\<close> with \<open>2^e \<le> \<bar>x\<bar> < 2^(e + 1)\<close>.\<close>

definition binExponent :: "rat \<Rightarrow> int" where
  "binExponent x =
     (let (n, m) = quotient_of \<bar>x\<bar>; d = bitlen n - bitlen m
      in if 2 powi d \<le> \<bar>x\<bar> then d else d - 1)"

definition toDouble :: "rat \<Rightarrow> rat" where
  "toDouble x =
     (if x = 0 then 0
      else let ulp = 2 powi (binExponent x - 52)
           in of_int (roundTiesToEven (x / ulp)) * ulp)"

definition jsDivide :: "rat \<Rightarrow> rat \<Rightarrow> rat" where
  "jsDivide x y = toDouble (x / y)"

definition jsTimes :: "rat \<Rightarrow> rat \<Rightarrow> rat" where
  "jsTimes x y = toDouble (x * y)"

definition mathRound :: "rat \<Rightarrow> int" where
  "mathRound x = \<lfloor>x + 1 / 2\<rfloor>"

definition totalActive :: "Session \<Rightarrow> int" where
  "totalActive s = int (length (getActiveIndices (cards (deck s))))"

definition remaining :: "Session \<Rightarrow> int" where
  "remaining s = (if isDone s then 0 else int (length (order s)) - cursor s)"

definition learned :: "Session \<Rightarrow> int" where
  "learned s = totalActive s - remaining s"

definition progressPercent :: "Session \<Rightarrow> int" where
  "progressPercent s =
     (if totalActive s = 0 then 0
      else mathRound (jsTimes (jsDivide (of_int (learned s)) (of_int (totalActive s))) 100))"

text \<open>
  The formula of the specification, \<open>round(100 * learned / totalActive)\<close> and \<open>0\<close> when
  \<open>totalActive\<close> is \<open>0\<close>, computed exactly, for comparison with \<open>progressPercent\<close>.
\<close>

definition specPercent :: "int \<Rightarrow> int \<Rightarrow> int" where
  "specPercent l t = (if t = 0 then 0 else round (100 * of_int l / of_int t :: rat))"

section \<open>Session states\<close>

text \<open>
  The states in which the component waits for an event: the initial session of a
  deck and what the six operations make of such a state. The random draws of each
  shuffle are arbitrary.
\<close>

inductive reachable :: "Session \<Rightarrow> bool" where
  r_init: "reachable (initSession rnd d)"
| r_flip: "reachable s \<Longrightarrow> reachable (flipCard s)"
| r_next: "reachable s \<Longrightarrow> reachable (goToNext s)"
| r_previous: "reachable s \<Longrightarrow> reachable (goToPrevious s)"
| r_archive: "reachable s \<Longrightarrow> reachable (archiveCurrent rnd s)"
| r_reshuffle: "reachable s \<Longrightarrow> reachable (reshuffleAll rnd s)"
| r_direction: "reachable s \<Longrightarrow> reachable (toggleDirection s)"

text \<open>
  The states the component renders: the former, the render between the archive
  handler and the deck-change effect, and the first render of a deck.
\<close>

inductive rendered :: "Session \<Rightarrow> bool" where
  d_stable: "reachable s \<Longrightarrow> rendered s"
| d_handler: "reachable s \<Longrightarrow> rendered (archiveCurrentCard s)"
| d_first: "rendered \<lparr>deck = d, order = getActiveIndices (cards d), cursor = 0, flipped = False,
                      sdirection = direction (defaults d)\<rparr>"

text \<open>The invariant of the cursor, and the relation of \<open>order\<close> to the deck.\<close>

definition cursorInv :: "Session \<Rightarrow> bool" where
  "cursorInv s = (0 \<le> cursor s \<and> cursor s \<le> int (length (order s)))"

definition orderInv :: "Session \<Rightarrow> bool" where
  "orderInv s = (mset (order s) = mset (getActiveIndices (cards (deck s))))"

definition isActive :: "CardItem \<Rightarrow> bool" where
  "isActive c = (archived c \<noteq> Some True \<and> length (trim (q c) @ trim (a c)) > 0)"

section \<open>JSON documents\<close>

text \<open>
  The value that \<open>JSON.parse\<close> returns. An object is the list of its own properties,
  read with \<open>map_of\<close>. A number is the rational value of its double. The result of a
  property read is a \<open>json option\<close>, where \<open>None\<close> is \<open>undefined\<close>, which no JSON
  document contains.
\<close>

datatype json =
    JNull
  | JBool bool
  | JNumber rat
  | JString string
  | JArray "json list"
  | JObject "(string \<times> json) list"

text \<open>
  What the \<open>try\<close> blocks catch: the \<open>SyntaxError\<close> of \<open>JSON.parse\<close>, a \<open>TypeError\<close>, and
  the \<open>Error("Invalid schema")\<close> that \<open>importJSON\<close> throws itself.
\<close>

datatype jsError = SyntaxError | TypeError | InvalidSchema

text \<open>
  A document as the program meets it: the text is read and parsed first, and
  \<open>Malformed\<close> is the text that cannot be read or that \<open>JSON.parse\<close> refuses.
\<close>

datatype rawDocument = Malformed | Parsed json

text \<open>
  The property read \<open>v.k\<close>. It throws on \<open>null\<close>, gives the own property of an object, and
  \<open>undefined\<close> where there is none. The program reads the names \<open>schemaVersion\<close>,
  \<open>cards\<close>, \<open>name\<close>, \<open>defaults\<close>, \<open>direction\<close>, \<open>shuffle\<close>, \<open>q\<close>, \<open>a\<close> and \<open>archived\<close>, which no
  prototype of an object, array, string, number or boolean defines.
\<close>

fun getProp :: "json \<Rightarrow> string \<Rightarrow> jsError + json option" where
  "getProp JNull k = Inl TypeError"
| "getProp (JObject kvs) k = Inr (map_of kvs k)"
| "getProp v k = Inr None"

text \<open>The optional chain \<open>v?.k\<close>: \<open>undefined\<close> when \<open>v\<close> is \<open>undefined\<close> or \<open>null\<close>.\<close>

fun optionalProp :: "json option \<Rightarrow> string \<Rightarrow> jsError + json option" where
  "optionalProp None k = Inr None"
| "optionalProp (Some JNull) k = Inr None"
| "optionalProp (Some v) k = getProp v k"

text \<open>\<open>Boolean(v)\<close>, which is also the test of \<open>v || w\<close>.\<close>

fun truthy :: "json option \<Rightarrow> bool" where
  "truthy None = False"
| "truthy (Some JNull) = False"
| "truthy (Some (JBool b)) = b"
| "truthy (Some (JNumber n)) = (n \<noteq> 0)"
| "truthy (Some (JString s)) = (s \<noteq> [])"
| "truthy (Some (JArray xs)) = True"
| "truthy (Some (JObject kvs)) = True"

text \<open>
  \<open>String(v)\<close>. The rendering of a number, \<open>Number::toString\<close> of the runtime, is the
  argument \<open>ns\<close>. An array is the join of its elements with commas, \<open>null\<close> elements giving
  the empty string. An object is converted by \<open>Object.prototype.toString\<close>, unless it has
  an own property \<open>toString\<close>: a value of a JSON document is never callable, so the
  conversion finds no method to call and throws a \<open>TypeError\<close> (\<open>None\<close> here).
\<close>

fun joinWith :: "string \<Rightarrow> string list \<Rightarrow> string" where
  "joinWith sep [] = []"
| "joinWith sep [x] = x"
| "joinWith sep (x # y # ys) = x @ sep @ joinWith sep (y # ys)"

fun toStr :: "(rat \<Rightarrow> string) \<Rightarrow> json \<Rightarrow> string option" where
  "toStr ns JNull = Some ''null''"
| "toStr ns (JBool b) = Some (if b then ''true'' else ''false'')"
| "toStr ns (JNumber n) = Some (ns n)"
| "toStr ns (JString s) = Some s"
| "toStr ns (JArray xs) =
     map_option (joinWith '','')
       (those (map (\<lambda>x. if x = JNull then Some [] else toStr ns x) xs))"
| "toStr ns (JObject kvs) =
     (if ''toString'' \<in> fst ` set kvs then None else Some ''[object Object]'')"

text \<open>\<open>String(v ?? "")\<close>.\<close>

definition stringOrEmpty :: "(rat \<Rightarrow> string) \<Rightarrow> json option \<Rightarrow> jsError + string" where
  "stringOrEmpty ns v =
     (case v of
        None \<Rightarrow> Inr []
      | Some JNull \<Rightarrow> Inr []
      | Some x \<Rightarrow> (case toStr ns x of None \<Rightarrow> Inl TypeError | Some s \<Rightarrow> Inr s))"

text \<open>Sequencing of steps that may throw: the first error ends the block.\<close>

definition bindE :: "'e + 'a \<Rightarrow> ('a \<Rightarrow> 'e + 'b) \<Rightarrow> 'e + 'b" where
  "bindE r f = (case r of Inl e \<Rightarrow> Inl e | Inr x \<Rightarrow> f x)"

section \<open>Import, export and the persisted deck (components/EditView, utils/storage)\<close>

text \<open>
  \<^verbatim>\<open>
  input.onchange = async () => {
    const file = input.files?.[0];
    if (!file) return;
    try {
      const raw = await file.text();
      const json = JSON.parse(raw);
      if (json.schemaVersion !== 1 || !Array.isArray(json.cards)) {
        throw new Error("Invalid schema");
      }
      const importedCards: CardItem[] = json.cards.map((card: any) => ({
        q: String(card.q ?? ""),
        a: String(card.a ?? ""),
        archived: Boolean(card.archived),
      }));
      setName(json.name || "Imported Set");
      setCards(importedCards);
      setDirection(json.defaults?.direction === "A2Q" ? "A2Q" : "Q2A");
      setShuffle(Boolean(json.defaults?.shuffle));
      announce("Set imported");
    } catch {
      announce("Import failed");
    }
  };
  \<close>
  \<open>importCard\<close> is the callback of \<open>json.cards.map\<close> and \<open>importCards\<close> the map, which
  stops at the first card that throws.
\<close>

definition importCard :: "(rat \<Rightarrow> string) \<Rightarrow> json \<Rightarrow> jsError + CardItem" where
  "importCard ns c =
     bindE (getProp c ''q'') (\<lambda>qv.
     bindE (stringOrEmpty ns qv) (\<lambda>qs.
     bindE (getProp c ''a'') (\<lambda>av.
     bindE (stringOrEmpty ns av) (\<lambda>as.
     bindE (getProp c ''archived'') (\<lambda>ar.
       Inr \<lparr>q = qs, a = as, archived = Some (truthy ar)\<rparr>)))))"

fun importCards :: "(rat \<Rightarrow> string) \<Rightarrow> json list \<Rightarrow> jsError + CardItem list" where
  "importCards ns [] = Inr []"
| "importCards ns (c # cs) =
     bindE (importCard ns c) (\<lambda>x. bindE (importCards ns cs) (\<lambda>xs. Inr (x # xs)))"

text \<open>
  The four state cells of \<open>EditView\<close> that make the working deck. \<open>json.name\<close> is of type
  \<open>any\<close> and is stored as it is when it is truthy, so the name cell holds a JSON value.
\<close>

record EditState =
  stName :: json
  stCards :: "CardItem list"
  stDirection :: Direction
  stShuffle :: bool

text \<open>
  \<open>importDocument\<close> is the \<open>try\<close> block: the new state cells, or what was thrown. All that
  can throw comes before the first setter. \<open>importJSON\<close> is the handler: the state it
  leaves and the notice it announces.
\<close>

definition importDocument :: "(rat \<Rightarrow> string) \<Rightarrow> rawDocument \<Rightarrow> jsError + EditState" where
  "importDocument ns raw =
     (case raw of
        Malformed \<Rightarrow> Inl SyntaxError
      | Parsed doc \<Rightarrow>
          bindE (getProp doc ''schemaVersion'') (\<lambda>version.
            if version \<noteq> Some (JNumber 1) then Inl InvalidSchema
            else bindE (getProp doc ''cards'') (\<lambda>cardsValue.
              case cardsValue of
                Some (JArray cs) \<Rightarrow>
                  bindE (importCards ns cs) (\<lambda>importedCards.
                  bindE (getProp doc ''name'') (\<lambda>nameValue.
                  bindE (getProp doc ''defaults'') (\<lambda>defaultsValue.
                  bindE (optionalProp defaultsValue ''direction'') (\<lambda>directionValue.
                  bindE (optionalProp defaultsValue ''shuffle'') (\<lambda>shuffleValue.
                    Inr \<lparr>stName = (case nameValue of
                                      None \<Rightarrow> JString ''Imported Set''
                                    | Some n \<Rightarrow> if truthy (Some n) then n
                                               else JString ''Imported Set''),
                         stCards = importedCards,
                         stDirection = (if directionValue = Some (JString ''A2Q'')
                                        then A2Q else Q2A),
                         stShuffle = truthy shuffleValue\<rparr>)))))
              | _ \<Rightarrow> Inl InvalidSchema)))"

definition importJSON :: "(rat \<Rightarrow> string) \<Rightarrow> rawDocument \<Rightarrow> EditState \<Rightarrow> EditState \<times> string" where
  "importJSON ns raw st =
     (case importDocument ns raw of
        Inl e \<Rightarrow> (st, ''Import failed'')
      | Inr st' \<Rightarrow> (st', ''Set imported''))"

text \<open>
  \<^verbatim>\<open>
  export function loadDeck(): Deck | null {
    try {
      const raw = localStorage.getItem(KEY);
      if (!raw) return null;
      const obj = JSON.parse(raw);
      if (obj.schemaVersion !== 1) return null;
      return obj as Deck;
    } catch {
      return null;
    }
  }
  \<close>
  The argument is the stored text after parsing, \<open>None\<close> when there is no stored item or
  the empty string. The result is the deck that \<open>App\<close> adopts (\<open>loadDeck() ?? defaultDeck()\<close>):
  the parsed value itself, under an unchecked cast.
\<close>

definition loadDeck :: "rawDocument option \<Rightarrow> json option" where
  "loadDeck stored =
     (case stored of
        None \<Rightarrow> None
      | Some Malformed \<Rightarrow> None
      | Some (Parsed obj) \<Rightarrow>
          (case getProp obj ''schemaVersion'' of
             Inl e \<Rightarrow> None
           | Inr version \<Rightarrow> if version \<noteq> Some (JNumber 1) then None else Some obj))"

text \<open>
  The exported document: \<open>JSON.stringify(deck, null, 2)\<close> in \<open>App\<close>'s \<open>onExport\<close>, and
  \<open>JSON.stringify\<close> of \<open>{schemaVersion: 1, name, cards, defaults: {direction, shuffle}}\<close> in
  \<open>exportJSON\<close>. The document is taken as the value that \<open>JSON.parse\<close> reads back from
  the written text. \<open>JSON.stringify\<close> leaves out a property whose value is \<open>undefined\<close>, so
  a card without \<open>archived\<close> is written without it.
\<close>

definition cardDocument :: "CardItem \<Rightarrow> json" where
  "cardDocument c =
     JObject ([(''q'', JString (q c)), (''a'', JString (a c))]
              @ (case archived c of None \<Rightarrow> [] | Some b \<Rightarrow> [(''archived'', JBool b)]))"

definition deckDocument :: "Deck \<Rightarrow> json" where
  "deckDocument d =
     JObject [(''schemaVersion'', JNumber 1),
              (''name'', JString (name d)),
              (''cards'', JArray (map cardDocument (cards d))),
              (''defaults'',
                 JObject [(''direction'',
                             JString (case direction (defaults d) of
                                        Q2A \<Rightarrow> ''Q2A'' | A2Q \<Rightarrow> ''A2Q'')),
                          (''shuffle'', JBool (shuffle (defaults d)))])]"

text \<open>
  The working deck of \<open>EditView\<close> for a deck: \<open>useState(deck.name)\<close>, \<open>useState(deck.cards)\<close>,
  \<open>useState(deck.defaults.direction)\<close>, \<open>useState(deck.defaults.shuffle)\<close>.
\<close>

definition deckState :: "Deck \<Rightarrow> EditState" where
  "deckState d =
     \<lparr>stName = JString (name d), stCards = cards d,
      stDirection = direction (defaults d), stShuffle = shuffle (defaults d)\<rparr>"

text \<open>The coercion of an absent \<open>archived\<close> field to \<open>false\<close>.\<close>

definition archivedDefault :: "CardItem \<Rightarrow> CardItem" where
  "archivedDefault c = (case archived c of None \<Rightarrow> c\<lparr>archived := Some False\<rparr> | Some b \<Rightarrow> c)"

text \<open>
  The schema test: \<open>schemaVersion\<close> is \<open>1\<close> and \<open>cards\<close> is a sequence.
\<close>

definition schemaAccepted :: "json \<Rightarrow> bool" where
  "schemaAccepted doc =
     (getProp doc ''schemaVersion'' = Inr (Some (JNumber 1))
      \<and> (case getProp doc ''cards'' of Inr (Some (JArray cs)) \<Rightarrow> True | _ \<Rightarrow> False))"

section \<open>Example inputs\<close>

text \<open>
  A deck of three active cards that keeps the deck order, and the run of the random
  source in which every draw is \<open>0\<close>, for the list form and for \<open>shuffleInPlace\<close>.
\<close>

definition exampleDeck :: Deck where
  "exampleDeck =
     \<lparr>name = ''Capitals'',
      cards = [\<lparr>q = ''France'', a = ''Paris'', archived = None\<rparr>,
               \<lparr>q = ''Italy'', a = ''Rome'', archived = None\<rparr>,
               \<lparr>q = ''Spain'', a = ''Madrid'', archived = Some False\<rparr>],
      defaults = \<lparr>direction = Q2A, shuffle = False\<rparr>\<rparr>"

definition noDraws :: "nat \<Rightarrow> nat" where
  "noDraws i = 0"

definition zeroDraws :: "int \<Rightarrow> nat" where
  "zeroDraws i = 0"


text \<open>
  The states of the three-card scenario: after one \<open>archiveCurrent\<close>, and after two more
  cycles of \<open>advance\<close> then \<open>archiveCurrent\<close>.
\<close>

definition scenarioAfterArchive :: "(nat \<Rightarrow> nat) \<Rightarrow> Deck \<Rightarrow> Session" where
  "scenarioAfterArchive rnd d = archiveCurrent rnd (initSession rnd d)"

definition scenarioFinal :: "(nat \<Rightarrow> nat) \<Rightarrow> Deck \<Rightarrow> Session" where
  "scenarioFinal rnd d =
     archiveCurrent rnd (goToNext (archiveCurrent rnd (goToNext (scenarioAfterArchive rnd d))))"

text \<open>A deck of forty active cards, and its session after \<open>n\<close> times \<open>advance\<close>.\<close>

definition fortyCards :: Deck where
  "fortyCards =
     \<lparr>name = ''Forty'',
      cards = replicate 40 \<lparr>q = ''question'', a = ''answer'', archived = None\<rparr>,
      defaults = \<lparr>direction = Q2A, shuffle = False\<rparr>\<rparr>"

definition fortyCardsAfter :: "nat \<Rightarrow> Session" where
  "fortyCardsAfter n = (goToNext ^^ n) (initSession noDraws fortyCards)"

text \<open>
  A rendering of numbers for the examples: the decimal numeral of the integer part,
  which is what \<open>Number::toString\<close> gives for an integer below \<open>10^21\<close>.
\<close>

fun natDigits :: "nat \<Rightarrow> string" where
  "natDigits n =
     (if n < 10 then [char_of (48 + n)] else natDigits (n div 10) @ [char_of (48 + n mod 10)])"

definition integerString :: "rat \<Rightarrow> string" where
  "integerString x = (if x < 0 then ''-'' else []) @ natDigits (nat \<lfloor>\<bar>x\<bar>\<rfloor>)"

text \<open>
  A deck with an empty name, and three documents: one of schema version 2, one of
  schema version 1 without \<open>cards\<close>, and one with the empty string as its name.
\<close>

definition untitledDeck :: Deck where
  "untitledDeck =
     \<lparr>name = [],
      cards = [\<lparr>q = ''France'', a = ''Paris'', archived = Some False\<rparr>],
      defaults = \<lparr>direction = A2Q, shuffle = True\<rparr>\<rparr>"

definition versionTwoDocument :: json where
  "versionTwoDocument =
     JObject [(''schemaVersion'', JNumber 2), (''name'', JString ''Other''),
              (''cards'', JArray [JObject [(''q'', JString ''x''), (''a'', JString ''y'')]])]"

definition noCardsDocument :: json where
  "noCardsDocument = JObject [(''schemaVersion'', JNumber 1), (''name'', JString ''Stored'')]"

definition unnamedDocument :: json where
  "unnamedDocument =
     JObject [(''schemaVersion'', JNumber 1), (''name'', JString []), (''cards'', JArray [])]"

section \<open>The shuffle is a permutation\<close>

text \<open>The list form keeps the length, the multiset and the prefix below the start index.\<close>

lemma shuffleList_loop_length:
  "length (shuffleList_loop rnd k i arr) = length arr"
proof (induction rnd k i arr rule: shuffleList_loop.induct)
  case (1 rnd k i arr)
  show ?case
  proof (cases "i > k")
    case True
    with "1" show ?thesis
      by (subst shuffleList_loop.simps) (simp add: Let_def)
  next
    case False
    then show ?thesis by (subst shuffleList_loop.simps) simp
  qed
qed

lemma shuffleList_loop_mset:
  "i < length arr \<or> i \<le> k \<Longrightarrow> mset (shuffleList_loop rnd k i arr) = mset arr"
proof (induction rnd k i arr rule: shuffleList_loop.induct)
  case (1 rnd k i arr)
  show ?case
  proof (cases "i > k")
    case True
    define j where "j = rnd i mod (i - k + 1) + k"
    have il: "i < length arr" using True "1.prems" by auto
    have "rnd i mod (i - k + 1) < i - k + 1" by (rule mod_less_divisor) simp
    then have ji: "j \<le> i" unfolding j_def using True by linarith
    then have jl: "j < length arr" using il by simp
    have sw: "mset (arr[i := arr ! j, j := arr ! i]) = mset arr"
      using mset_swap [OF jl il] by simp
    have "mset (shuffleList_loop rnd k (i - 1) (arr[i := arr ! j, j := arr ! i]))
            = mset (arr[i := arr ! j, j := arr ! i])"
    proof (rule "1.IH" [OF True j_def])
      show "i - 1 < length (arr[i := arr ! j, j := arr ! i]) \<or> i - 1 \<le> k"
        using il by auto
    qed
    then show ?thesis
      using True sw by (subst shuffleList_loop.simps) (simp add: Let_def j_def)
  next
    case False
    then show ?thesis by (subst shuffleList_loop.simps) simp
  qed
qed

lemma shuffleList_loop_take:
  "take k (shuffleList_loop rnd k i arr) = take k arr"
proof (induction rnd k i arr rule: shuffleList_loop.induct)
  case (1 rnd k i arr)
  show ?case
  proof (cases "i > k")
    case True
    define j where "j = rnd i mod (i - k + 1) + k"
    have kj: "k \<le> j" by (simp add: j_def)
    have "take k (shuffleList_loop rnd k (i - 1) (arr[i := arr ! j, j := arr ! i]))
            = take k (arr[i := arr ! j, j := arr ! i])"
      using "1.IH" [OF True j_def] .
    also have "\<dots> = take k arr"
      using True kj by simp
    finally show ?thesis
      using True by (subst shuffleList_loop.simps) (simp add: Let_def j_def)
  next
    case False
    then show ?thesis by (subst shuffleList_loop.simps) simp
  qed
qed

lemma shuffleList_mset: "mset (shuffleList rnd arr k) = mset arr"
proof (cases "arr = []")
  case True
  then show ?thesis
    unfolding shuffleList_def by (intro shuffleList_loop_mset) simp
next
  case False
  then have "length arr - 1 < length arr" by (cases arr) simp_all
  then show ?thesis
    unfolding shuffleList_def by (intro shuffleList_loop_mset) simp
qed

lemma shuffleList_length: "length (shuffleList rnd arr k) = length arr"
  unfolding shuffleList_def by (rule shuffleList_loop_length)

text \<open>The list form is \<open>shuffleInPlace\<close> at a start index that is a natural number.\<close>

lemma isInteger_of_nat [simp]: "isInteger (of_nat n)"
  by (simp add: isInteger_def)

lemma getAt_index:
  "n < length (cells arr) \<Longrightarrow> getAt arr (of_nat n) = cells arr ! n"
  by (simp add: getAt_def)

lemma setAt_index:
  "n < length (cells arr) \<Longrightarrow> setAt arr (of_nat n) v = arr\<lparr>cells := (cells arr)[n := v]\<rparr>"
  by (simp add: setAt_def)

lemma shuffle_loop_natural:
  "cells arr = xs \<Longrightarrow> i < length xs \<or> i \<le> n \<Longrightarrow>
     shuffle_loop rnd (of_nat n) (int i) arr
       = arr\<lparr>cells := shuffleList_loop (\<lambda>k. rnd (int k)) n i xs\<rparr>"
proof (induction "\<lambda>k. rnd (int k)" n i xs arbitrary: arr rule: shuffleList_loop.induct)
  case (1 n i xs)
  show ?case
  proof (cases "i > n")
    case False
    then show ?thesis
      using "1.prems"(1)
      by (subst shuffle_loop.simps, subst shuffleList_loop.simps) simp
  next
    case True
    define k where "k = rnd (int i) mod (i - n + 1) + n"
    have il: "i < length xs" using True "1.prems"(2) by auto
    have "rnd (int i) mod (i - n + 1) < i - n + 1" by (rule mod_less_divisor) simp
    then have ki: "k \<le> i" unfolding k_def using True by linarith
    then have kl: "k < length xs" using il by simp
    have m: "nat \<lceil>rat_of_int (int i) - rat_of_nat n + 1\<rceil> = i - n + 1"
    proof -
      have "rat_of_int (int i) - rat_of_nat n + 1 = of_int (int i - int n + 1)" by simp
      then have "\<lceil>rat_of_int (int i) - rat_of_nat n + 1\<rceil> = int i - int n + 1"
        by (simp only: ceiling_of_int)
      then show ?thesis using True by simp
    qed
    have j: "rat_of_nat (rnd (int i) mod nat \<lceil>rat_of_int (int i) - rat_of_nat n + 1\<rceil>) + rat_of_nat n
               = rat_of_nat k"
      by (simp only: m k_def of_nat_add)
    let ?arr' = "arr\<lparr>cells := xs[i := xs ! k, k := xs ! i]\<rparr>"
    have step: "setAt (setAt arr (rat_of_int (int i)) (getAt arr (rat_of_nat k))) (rat_of_nat k)
                  (getAt arr (rat_of_int (int i))) = ?arr'"
    proof -
      have gi: "getAt arr (rat_of_int (int i)) = xs ! i"
        using getAt_index [of i arr] il "1.prems"(1) by simp
      have gk: "getAt arr (rat_of_nat k) = xs ! k"
        using getAt_index [of k arr] kl "1.prems"(1) by simp
      have s1: "setAt arr (rat_of_int (int i)) (xs ! k) = arr\<lparr>cells := xs[i := xs ! k]\<rparr>"
        using setAt_index [of i arr] il "1.prems"(1) by simp
      have s2: "setAt (arr\<lparr>cells := xs[i := xs ! k]\<rparr>) (rat_of_nat k) (xs ! i) = ?arr'"
        using setAt_index [of k "arr\<lparr>cells := xs[i := xs ! k]\<rparr>"] kl by simp
      show ?thesis by (simp only: gi gk s1 s2)
    qed
    have ih: "shuffle_loop rnd (rat_of_nat n) (int (i - 1)) ?arr'
                = ?arr'\<lparr>cells := shuffleList_loop (\<lambda>k. rnd (int k)) n (i - 1)
                                     (xs[i := xs ! k, k := xs ! i])\<rparr>"
    proof (rule "1.hyps" [OF True k_def])
      show "cells ?arr' = xs[i := xs ! k, k := xs ! i]" by simp
      show "i - 1 < length (xs[i := xs ! k, k := xs ! i]) \<or> i - 1 \<le> n"
        using il by auto
    qed
    have i1: "int i - 1 = int (i - 1)" using True by simp
    have lhs: "shuffle_loop rnd (rat_of_nat n) (int i) arr
                 = shuffle_loop rnd (rat_of_nat n) (int (i - 1)) ?arr'"
    proof -
      have c: "rat_of_nat n < rat_of_int (int i)" using True by simp
      show ?thesis
        by (subst shuffle_loop.simps) (simp only: c if_True Let_def j step i1)
    qed
    have rhs: "shuffleList_loop (\<lambda>k. rnd (int k)) n i xs
                 = shuffleList_loop (\<lambda>k. rnd (int k)) n (i - 1) (xs[i := xs ! k, k := xs ! i])"
      using True by (subst shuffleList_loop.simps) (simp add: Let_def k_def)
    show ?thesis unfolding lhs rhs ih by simp
  qed
qed

lemma shuffleInPlace_natural:
  "shuffleInPlace rnd arr (of_nat n)
     = arr\<lparr>cells := shuffleList (\<lambda>k. rnd (int k)) (cells arr) n\<rparr>"
proof (cases "cells arr = []")
  case True
  have "\<not> rat_of_nat n < rat_of_int (- 1)"
    by (simp add: not_less)
  then have "shuffle_loop rnd (of_nat n) (- 1) arr = arr"
    by (subst shuffle_loop.simps) (simp only: if_False)
  moreover have "shuffleList_loop (\<lambda>k. rnd (int k)) n 0 ([] :: 'a option list) = []"
    by (subst shuffleList_loop.simps) simp
  ultimately show ?thesis
    using True by (simp add: shuffleInPlace_def shuffleList_def)
next
  case False
  then have l: "length (cells arr) - 1 < length (cells arr)" by (cases "cells arr") simp_all
  have i: "int (length (cells arr)) - 1 = int (length (cells arr) - 1)"
    using False by (cases "cells arr") simp_all
  show ?thesis
    unfolding shuffleInPlace_def shuffleList_def i
    by (rule shuffle_loop_natural) (use l in simp_all)
qed

lemma shuffleList_loop_map:
  "i < length xs \<or> i \<le> n \<Longrightarrow>
     shuffleList_loop rnd n i (map f xs) = map f (shuffleList_loop rnd n i xs)"
proof (induction rnd n i xs rule: shuffleList_loop.induct)
  case (1 rnd n i xs)
  show ?case
  proof (cases "i > n")
    case False
    then show ?thesis
      by (subst shuffleList_loop.simps, subst (2) shuffleList_loop.simps) simp
  next
    case True
    define k where "k = rnd i mod (i - n + 1) + n"
    have il: "i < length xs" using True "1.prems" by auto
    have "rnd i mod (i - n + 1) < i - n + 1" by (rule mod_less_divisor) simp
    then have ki: "k \<le> i" unfolding k_def using True by linarith
    then have kl: "k < length xs" using il by simp
    have sw: "(map f xs)[i := map f xs ! k, k := map f xs ! i]
                = map f (xs[i := xs ! k, k := xs ! i])"
      using il kl by (simp add: map_update)
    have ih: "shuffleList_loop rnd n (i - 1) (map f (xs[i := xs ! k, k := xs ! i]))
                = map f (shuffleList_loop rnd n (i - 1) (xs[i := xs ! k, k := xs ! i]))"
    proof (rule "1.IH" [OF True k_def])
      show "i - 1 < length (xs[i := xs ! k, k := xs ! i]) \<or> i - 1 \<le> n"
        using il by auto
    qed
    have l: "shuffleList_loop rnd n i (map f xs)
               = shuffleList_loop rnd n (i - 1) ((map f xs)[i := map f xs ! k, k := map f xs ! i])"
      using True by (subst shuffleList_loop.simps) (simp add: Let_def k_def)
    have r: "shuffleList_loop rnd n i xs
               = shuffleList_loop rnd n (i - 1) (xs[i := xs ! k, k := xs ! i])"
      using True by (subst shuffleList_loop.simps) (simp add: Let_def k_def)
    show ?thesis unfolding l r sw ih ..
  qed
qed

lemma shuffleList_map: "shuffleList rnd (map f xs) n = map f (shuffleList rnd xs n)"
proof -
  have "length xs - 1 < length xs \<or> length xs - 1 \<le> n" by (cases xs) auto
  then show ?thesis
    unfolding shuffleList_def length_map by (rule shuffleList_loop_map)
qed

text \<open>
  In particular, on the array of a list: each run of \<open>shuffleInPlace\<close> is a run of the
  list form, and each run of the list form is one of \<open>shuffleInPlace\<close>.
\<close>

lemma shuffleInPlace_arrayOf:
  "shuffleInPlace rnd (arrayOf xs) (of_nat n) = arrayOf (shuffleList (\<lambda>k. rnd (int k)) xs n)"
  by (simp add: shuffleInPlace_natural arrayOf_def shuffleList_map)

lemma shuffleList_is_shuffleInPlace:
  "arrayOf (shuffleList rnd xs n) = shuffleInPlace (\<lambda>i. rnd (nat i)) (arrayOf xs) (of_nat n)"
  by (simp add: shuffleInPlace_arrayOf)

text \<open>
  C6 (amended). For every array, every start index that is a non-negative integer and
  every run of the random source, after \<open>shuffleInPlace(arr, startIndex)\<close> the cells of
  the array are a permutation of the original cells (the same multiset, hence the same
  length), every cell at an index strictly below \<open>startIndex\<close> is unchanged, and the
  array has got no property beside its cells.
\<close>

theorem shuffleInPlace_permutation_fixes_prefix:
  assumes "0 \<le> startIndex" and "startIndex \<in> \<int>"
  shows "mset (cells (shuffleInPlace rnd arr startIndex)) = mset (cells arr)
       \<and> length (cells (shuffleInPlace rnd arr startIndex)) = length (cells arr)
       \<and> take (nat \<lfloor>startIndex\<rfloor>) (cells (shuffleInPlace rnd arr startIndex))
           = take (nat \<lfloor>startIndex\<rfloor>) (cells arr)
       \<and> props (shuffleInPlace rnd arr startIndex) = props arr"
proof -
  define n where "n = nat \<lfloor>startIndex\<rfloor>"
  have "startIndex = of_int \<lfloor>startIndex\<rfloor>" using assms(2) by (simp add: Ints_def)
  moreover have "0 \<le> \<lfloor>startIndex\<rfloor>" using assms(1) by simp
  ultimately have s: "startIndex = of_nat n" unfolding n_def by simp
  have t: "take n (shuffleList (\<lambda>k. rnd (int k)) (cells arr) n) = take n (cells arr)"
    unfolding shuffleList_def by (rule shuffleList_loop_take)
  show ?thesis
    unfolding n_def [symmetric] unfolding s
    by (simp add: shuffleInPlace_natural shuffleList_mset shuffleList_length t)
qed

text \<open>
  With the start index \<open>-1\<close> the loop also runs at \<open>i = 0\<close>, where \<open>j\<close> can be \<open>-1\<close>: the swap
  then puts \<open>undefined\<close> into cell \<open>0\<close> and the element into the property \<open>-1\<close>. With the
  start index \<open>1/2\<close> every \<open>j\<close> is fractional, and each swap does the same to cell \<open>i\<close>.
\<close>

lemma shuffleInPlace_minus_one:
  "cells (shuffleInPlace zeroDraws (arrayOf [7 :: int]) (- 1)) = [None]"
  by code_simp

lemma shuffleInPlace_one_half:
  "cells (shuffleInPlace zeroDraws (arrayOf [10, 20 :: int]) (1 / 2)) = [Some 10, None]"
  by code_simp

theorem shuffleInPlace_counterexample:
  "cells (arrayOf [7 :: int]) = [Some 7]
   \<and> cells (shuffleInPlace zeroDraws (arrayOf [7 :: int]) (- 1)) = [None]
   \<and> mset (cells (shuffleInPlace zeroDraws (arrayOf [7 :: int]) (- 1)))
       \<noteq> mset (cells (arrayOf [7 :: int]))
   \<and> cells (shuffleInPlace zeroDraws (arrayOf [10, 20 :: int]) (1 / 2)) = [Some 10, None]
   \<and> mset (cells (shuffleInPlace zeroDraws (arrayOf [10, 20 :: int]) (1 / 2)))
       \<noteq> mset (cells (arrayOf [10, 20 :: int]))"
proof -
  have a: "cells (arrayOf [7 :: int]) = [Some 7]"
    and b: "cells (arrayOf [10, 20 :: int]) = [Some 10, Some 20]"
    by (simp_all add: arrayOf_def)
  show ?thesis
    unfolding shuffleInPlace_minus_one shuffleInPlace_one_half a b by simp
qed

theorem shuffleInPlace_permutation_fixes_prefix_witness:
  "(0 :: rat) \<le> 1 \<and> (1 :: rat) \<in> \<int>
   \<and> cells (shuffleInPlace zeroDraws (arrayOf [10, 20, 30 :: int]) 1) = [Some 10, Some 30, Some 20]
   \<and> mset (cells (shuffleInPlace zeroDraws (arrayOf [10, 20, 30 :: int]) 1))
       = mset (cells (arrayOf [10, 20, 30 :: int]))
   \<and> take 1 (cells (shuffleInPlace zeroDraws (arrayOf [10, 20, 30 :: int]) 1))
       = take 1 (cells (arrayOf [10, 20, 30 :: int]))"
proof -
  have e: "cells (shuffleInPlace zeroDraws (arrayOf [10, 20, 30 :: int]) 1)
             = [Some 10, Some 30, Some 20]"
    by code_simp
  have h: "(0 :: rat) \<le> 1" "(1 :: rat) \<in> \<int>" by simp_all
  show ?thesis
    using shuffleInPlace_permutation_fixes_prefix [OF h, of zeroDraws "arrayOf [10, 20, 30 :: int]"]
      e h
    by simp
qed

text \<open>
  The two calls in the session, written with the list form, are \<open>shuffleInPlace\<close> on
  the array of the list with the start index \<open>0\<close>.
\<close>

lemma reshuffleAll_shuffleInPlace:
  "arrayOf (order (reshuffleAll rnd s)) = shuffleInPlace (\<lambda>i. rnd (nat i)) (arrayOf (order s)) 0"
  using shuffleList_is_shuffleInPlace [of rnd "order s" 0] by (simp add: reshuffleAll_def)

lemma deckEffect_shuffleInPlace:
  "shuffle (defaults (deck s)) \<Longrightarrow>
     arrayOf (order (deckEffect rnd s))
       = shuffleInPlace (\<lambda>i. rnd (nat i)) (arrayOf (getActiveIndices (cards (deck s)))) 0"
  using shuffleList_is_shuffleInPlace [of rnd "getActiveIndices (cards (deck s))" 0]
  by (simp add: deckEffect_def)

section \<open>Active indices and the invariants of a session\<close>

lemma getActiveIndices_alt:
  "getActiveIndices cs = map int (filter (\<lambda>i. isActive (cs ! i)) [0..<length cs])"
proof -
  have "getActiveIndices cs =
          map (\<lambda>i. if isActive (cs ! i) then int i else -1)
            (filter (\<lambda>i. isActive (cs ! i)) [0..<length cs])"
    unfolding getActiveIndices_def mapi_def filter_map isActive_def Let_def
    by (rule arg_cong [where f = "map _"], rule filter_cong) (auto simp: o_def)
  also have "\<dots> = map int (filter (\<lambda>i. isActive (cs ! i)) [0..<length cs])"
    by (rule map_cong) auto
  finally show ?thesis .
qed

lemma getActiveIndices_distinct: "distinct (getActiveIndices cs)"
  by (simp add: getActiveIndices_alt distinct_map inj_on_def)

lemma getActiveIndices_range:
  "x \<in> set (getActiveIndices cs) \<Longrightarrow> 0 \<le> x \<and> x < int (length cs)"
  by (auto simp: getActiveIndices_alt)

lemma mapi_length: "length (mapi f xs) = length xs"
  by (simp add: mapi_def)

lemma mapi_nth: "i < length xs \<Longrightarrow> mapi f xs ! i = f (xs ! i) (int i)"
  by (simp add: mapi_def)

lemma mapi_ident: "mapi (\<lambda>x i. x) xs = xs"
  by (simp add: mapi_def map_nth)

lemma getActiveIndices_archive:
  "getActiveIndices (mapi (\<lambda>card index. if index = ci then card\<lparr>archived := Some True\<rparr> else card) cs)
     = filter (\<lambda>index. index \<noteq> ci) (getActiveIndices cs)"
  unfolding getActiveIndices_alt mapi_length filter_map filter_filter o_def
  by (rule arg_cong [where f = "map int"], rule filter_cong)
     (auto simp: mapi_nth isActive_def)

lemma exampleDeck_active: "getActiveIndices (cards exampleDeck) = [0, 1, 2]"
  by code_simp

lemma exampleDeck_defaults:
  "\<not> shuffle (defaults exampleDeck)" "direction (defaults exampleDeck) = Q2A"
  by (simp_all add: exampleDeck_def)

lemma exampleDeck_init:
  "initSession rnd exampleDeck =
     \<lparr>deck = exampleDeck, order = [0, 1, 2], cursor = 0, flipped = False, sdirection = Q2A\<rparr>"
  by (simp add: initSession_def deckEffect_def exampleDeck_active) (simp add: exampleDeck_def)

lemma cursorInv_deckEffect: "cursorInv (deckEffect rnd s)"
  by (simp add: cursorInv_def deckEffect_def Let_def)

lemma cursorInv_initSession: "cursorInv (initSession rnd d)"
  by (simp add: initSession_def cursorInv_deckEffect)

lemma cursorInv_flipCard: "cursorInv s \<Longrightarrow> cursorInv (flipCard s)"
  by (simp add: cursorInv_def flipCard_def)

lemma cursorInv_goToNext: "cursorInv s \<Longrightarrow> cursorInv (goToNext s)"
  by (simp add: cursorInv_def goToNext_def isDone_def Let_def)

lemma cursorInv_goToPrevious: "cursorInv s \<Longrightarrow> cursorInv (goToPrevious s)"
  by (simp add: cursorInv_def goToPrevious_def)

lemma cursorInv_reshuffleAll: "cursorInv (reshuffleAll rnd s)"
  by (simp add: cursorInv_def reshuffleAll_def)

lemma cursorInv_toggleDirection: "cursorInv s \<Longrightarrow> cursorInv (toggleDirection s)"
  by (simp add: cursorInv_def toggleDirection_def)

lemma cursorInv_archiveCurrentCard: "cursorInv s \<Longrightarrow> cursorInv (archiveCurrentCard s)"
  by (auto simp: cursorInv_def archiveCurrentCard_def Let_def)

lemma cursorInv_archiveCurrent: "cursorInv s \<Longrightarrow> cursorInv (archiveCurrent rnd s)"
  by (simp add: archiveCurrent_def cursorInv_deckEffect)

lemma orderInv_deckEffect: "orderInv (deckEffect rnd s)"
  by (simp add: orderInv_def deckEffect_def Let_def shuffleList_mset)

lemma orderInv_archiveCurrentCard:
  assumes "orderInv s"
  shows "orderInv (archiveCurrentCard s)"
proof (cases "currentIndex s")
  case Null
  then show ?thesis using assms by (simp add: archiveCurrentCard_def)
next
  case Undefined
  then show ?thesis using assms
    by (simp add: archiveCurrentCard_def orderInv_def Let_def mapi_ident)
next
  case (Index ci)
  then have nd: "\<not> isDone s" by (auto simp: currentIndex_def split: if_splits)
  have "mset (filter (\<lambda>index. index \<noteq> ci) (order s))
          = mset (filter (\<lambda>index. index \<noteq> ci) (getActiveIndices (cards (deck s))))"
    using assms by (simp add: orderInv_def)
  then show ?thesis using Index nd
    by (simp add: archiveCurrentCard_def orderInv_def Let_def getActiveIndices_archive)
qed

lemma reachable_inv: "reachable s \<Longrightarrow> cursorInv s \<and> orderInv s"
proof (induction rule: reachable.induct)
  case (r_init rnd d)
  then show ?case by (simp add: initSession_def cursorInv_deckEffect orderInv_deckEffect)
next
  case (r_flip s)
  then show ?case by (simp add: cursorInv_flipCard) (simp add: orderInv_def flipCard_def)
next
  case (r_next s)
  then show ?case by (simp add: cursorInv_goToNext) (simp add: orderInv_def goToNext_def)
next
  case (r_previous s)
  then show ?case by (simp add: cursorInv_goToPrevious) (simp add: orderInv_def goToPrevious_def)
next
  case (r_archive s rnd)
  then show ?case
    by (simp add: cursorInv_archiveCurrent) (simp add: archiveCurrent_def orderInv_deckEffect)
next
  case (r_reshuffle s rnd)
  then show ?case
    by (simp add: cursorInv_reshuffleAll) (simp add: orderInv_def reshuffleAll_def shuffleList_mset)
next
  case (r_direction s)
  then show ?case
    by (simp add: cursorInv_toggleDirection) (simp add: orderInv_def toggleDirection_def)
qed

lemma rendered_inv: "rendered s \<Longrightarrow> cursorInv s \<and> orderInv s"
proof (induction rule: rendered.induct)
  case (d_stable s)
  then show ?case by (rule reachable_inv)
next
  case (d_handler s)
  then show ?case
    using reachable_inv [of s] by (simp add: cursorInv_archiveCurrentCard orderInv_archiveCurrentCard)
next
  case (d_first d)
  show ?case by (simp add: cursorInv_def orderInv_def)
qed

text \<open>
  C5. The invariant \<open>0 \<le> cursor \<le> length(order)\<close> holds after session initialisation,
  for every deck and every run of the shuffle, and each operation of the session
  controller (flip, advance, retreat, archiveCurrent, both as the handler alone and with
  the re-initialisation that follows it, reshuffleAll, toggleDirection) preserves it.
  Under the invariant the session is Done, that is \<open>cursor \<ge> length(order)\<close> as the
  component tests it, exactly when \<open>cursor = length(order)\<close>.
\<close>

theorem cursor_invariant:
  "cursorInv (initSession rnd d)
   \<and> (cursorInv s \<longrightarrow>
        cursorInv (flipCard s) \<and> cursorInv (goToNext s) \<and> cursorInv (goToPrevious s)
        \<and> cursorInv (archiveCurrentCard s) \<and> cursorInv (archiveCurrent rnd s)
        \<and> cursorInv (reshuffleAll rnd s) \<and> cursorInv (toggleDirection s)
        \<and> (isDone s \<longleftrightarrow> cursor s = int (length (order s))))"
  by (simp add: cursorInv_initSession cursorInv_flipCard cursorInv_goToNext
      cursorInv_goToPrevious cursorInv_archiveCurrentCard cursorInv_archiveCurrent
      cursorInv_reshuffleAll cursorInv_toggleDirection)
    (auto simp: cursorInv_def isDone_def)

theorem cursor_invariant_witness:
  "cursorInv (initSession noDraws exampleDeck)
   \<and> cursorInv (goToNext (initSession noDraws exampleDeck))
   \<and> cursorInv (archiveCurrent noDraws (initSession noDraws exampleDeck))
   \<and> \<not> isDone (initSession noDraws exampleDeck)
   \<and> cursor (initSession noDraws exampleDeck) \<noteq> int (length (order (initSession noDraws exampleDeck)))"
  using cursor_invariant [of noDraws exampleDeck "initSession noDraws exampleDeck"]
  by (simp add: exampleDeck_init isDone_def)

section \<open>Archiving the current card, and reshuffling\<close>

lemma orderInv_length: "orderInv s \<Longrightarrow> totalActive s = int (length (order s))"
proof -
  assume "orderInv s"
  then have "size (mset (order s)) = size (mset (getActiveIndices (cards (deck s))))"
    by (simp add: orderInv_def)
  then show ?thesis by (simp add: totalActive_def)
qed

lemma filter_neq_length:
  "distinct xs \<Longrightarrow> x \<in> set xs \<Longrightarrow> length (filter (\<lambda>y. y \<noteq> x) xs) = length xs - 1"
proof -
  assume d: "distinct xs" and m: "x \<in> set xs"
  have "filter (\<lambda>y. y \<noteq> x) xs = removeAll x xs"
    by (induction xs) auto
  also have "\<dots> = remove1 x xs" using d by (simp add: distinct_remove1_removeAll)
  finally show ?thesis using m by (simp add: length_remove1)
qed

lemma archive_order_length:
  assumes "reachable s" "cursor s < int (length (order s))"
  shows "0 \<le> cursor s"
    and "order s ! nat (cursor s) \<in> set (order s)"
    and "distinct (order s)"
    and "0 \<le> order s ! nat (cursor s)"
    and "nat (order s ! nat (cursor s)) < length (cards (deck s))"
    and "currentIndex s = Index (order s ! nat (cursor s))"
proof -
  have inv: "cursorInv s" "orderInv s" using reachable_inv [OF assms(1)] by simp_all
  show c0: "0 \<le> cursor s" using inv(1) by (simp add: cursorInv_def)
  then show m: "order s ! nat (cursor s) \<in> set (order s)" using assms(2) by simp
  have ms: "mset (order s) = mset (getActiveIndices (cards (deck s)))"
    using inv(2) by (simp add: orderInv_def)
  then show "distinct (order s)"
    using getActiveIndices_distinct [of "cards (deck s)"] mset_eq_imp_distinct_iff by blast
  have "set (order s) = set (getActiveIndices (cards (deck s)))"
    using ms by (rule mset_eq_setD)
  then have "order s ! nat (cursor s) \<in> set (getActiveIndices (cards (deck s)))"
    using m by simp
  then have r: "0 \<le> order s ! nat (cursor s) \<and> order s ! nat (cursor s) < int (length (cards (deck s)))"
    by (rule getActiveIndices_range)
  then show "0 \<le> order s ! nat (cursor s)" by simp
  show "nat (order s ! nat (cursor s)) < length (cards (deck s))" using r by linarith
  show "currentIndex s = Index (order s ! nat (cursor s))"
    using c0 assms(2) by (simp add: currentIndex_def isDone_def)
qed

text \<open>
  C4. In every Active state the session reaches (\<open>cursor < length(order)\<close>),
  \<open>archiveCurrent\<close> removes exactly the current index from \<open>order\<close>: the handler's
  \<open>order\<close> is the old one without \<open>order[cursor]\<close>, one element shorter, and so is the
  \<open>order\<close> of the session that the deck change starts. The card at \<open>order[cursor]\<close> is a
  card of the deck and is archived in the updated deck, \<open>flipped\<close> is false, and the
  cursor never exceeds the length of \<open>order\<close>: the handler keeps it, or sets it to
  \<open>max(0, length(order) - 1)\<close> when it has reached the new length, and the new session
  starts at \<open>0\<close>.
\<close>

theorem archiveCurrent_active:
  assumes "reachable s" "cursor s < int (length (order s))"
  shows "order (archiveCurrentCard s) = filter (\<lambda>i. i \<noteq> order s ! nat (cursor s)) (order s)
       \<and> length (order (archiveCurrentCard s)) = length (order s) - 1
       \<and> length (order (archiveCurrent rnd s)) = length (order s) - 1
       \<and> length (order (archiveCurrent rnd s)) < length (order s)
       \<and> nat (order s ! nat (cursor s)) < length (cards (deck s))
       \<and> archived (cards (deck (archiveCurrentCard s)) ! nat (order s ! nat (cursor s))) = Some True
       \<and> deck (archiveCurrent rnd s) = deck (archiveCurrentCard s)
       \<and> \<not> flipped (archiveCurrentCard s) \<and> \<not> flipped (archiveCurrent rnd s)
       \<and> cursor (archiveCurrentCard s)
           = (if cursor s \<ge> int (length (order (archiveCurrentCard s)))
              then max 0 (int (length (order (archiveCurrentCard s))) - 1) else cursor s)
       \<and> 0 \<le> cursor (archiveCurrentCard s)
       \<and> cursor (archiveCurrentCard s) \<le> int (length (order (archiveCurrentCard s)))
       \<and> cursor (archiveCurrent rnd s) = 0
       \<and> cursor (archiveCurrent rnd s) \<le> int (length (order (archiveCurrent rnd s)))"
proof -
  define ci where "ci = order s ! nat (cursor s)"
  note f = archive_order_length [OF assms, folded ci_def]
  have nd: "\<not> isDone s" using assms(2) by (simp add: isDone_def)
  have ord: "order (archiveCurrentCard s) = filter (\<lambda>i. i \<noteq> ci) (order s)"
    using nd f(6) by (simp add: archiveCurrentCard_def Let_def)
  have len: "length (order (archiveCurrentCard s)) = length (order s) - 1"
    unfolding ord using f(3) f(2) by (rule filter_neq_length)
  have pos: "0 < length (order s)" using assms(2) f(1) by auto
  have inv': "orderInv (archiveCurrentCard s)" "orderInv (archiveCurrent rnd s)"
      "cursorInv (archiveCurrentCard s)"
    using reachable_inv [OF assms(1)] reachable_inv [OF r_archive [OF assms(1)]]
    by (simp_all add: orderInv_archiveCurrentCard cursorInv_archiveCurrentCard)
  have dk: "deck (archiveCurrent rnd s) = deck (archiveCurrentCard s)"
    using nd f(6) by (simp add: archiveCurrent_def deckEffect_def Let_def)
  have "int (length (order (archiveCurrent rnd s))) = totalActive (archiveCurrent rnd s)"
    using orderInv_length [OF inv'(2)] by simp
  also have "\<dots> = totalActive (archiveCurrentCard s)" by (simp add: totalActive_def dk)
  also have "\<dots> = int (length (order (archiveCurrentCard s)))"
    using orderInv_length [OF inv'(1)] by simp
  finally have len2: "length (order (archiveCurrent rnd s)) = length (order s) - 1"
    using len by simp
  have arch: "archived (cards (deck (archiveCurrentCard s)) ! nat ci) = Some True"
    using nd f(6) f(5) f(4) by (simp add: archiveCurrentCard_def Let_def mapi_nth)
  have fl: "\<not> flipped (archiveCurrentCard s)" "\<not> flipped (archiveCurrent rnd s)"
      "cursor (archiveCurrent rnd s) = 0"
    using nd f(6) by (simp_all add: archiveCurrentCard_def archiveCurrent_def deckEffect_def Let_def)
  have cur: "cursor (archiveCurrentCard s)
           = (if cursor s \<ge> int (length (order (archiveCurrentCard s)))
              then max 0 (int (length (order (archiveCurrentCard s))) - 1) else cursor s)"
    using nd f(6) by (simp add: archiveCurrentCard_def Let_def)
  show ?thesis
    unfolding ci_def [symmetric]
    using ord len len2 pos f(5) arch dk fl cur inv'(3)
    by (simp add: cursorInv_def)
qed

theorem archiveCurrent_active_witness:
  "reachable (initSession noDraws exampleDeck)
   \<and> cursor (initSession noDraws exampleDeck) < int (length (order (initSession noDraws exampleDeck)))
   \<and> length (order (archiveCurrent noDraws (initSession noDraws exampleDeck))) = 2
   \<and> archived (cards (deck (archiveCurrentCard (initSession noDraws exampleDeck))) ! 0) = Some True
   \<and> cursor (archiveCurrent noDraws (initSession noDraws exampleDeck)) = 0"
proof -
  have r: "reachable (initSession noDraws exampleDeck)" by (rule r_init)
  have c: "cursor (initSession noDraws exampleDeck)
             < int (length (order (initSession noDraws exampleDeck)))"
    by (simp add: exampleDeck_init)
  show ?thesis
    using archiveCurrent_active [OF r c, of noDraws] r c
    by (simp add: exampleDeck_init)
qed

text \<open>
  C10. \<open>reshuffleAll\<close>, in any state (also from Done, as restart), replaces \<open>order\<close> by a
  permutation of itself: the same multiset of card indices, so no index that was
  archived and removed comes back, and the deck is untouched. It sets \<open>cursor = 0\<close> and
  \<open>flipped = false\<close>. When \<open>order\<close> is empty it stays empty and the session is Done
  after \<open>reshuffleAll\<close>.
\<close>

theorem reshuffleAll_permutation:
  "mset (order (reshuffleAll rnd s)) = mset (order s)
   \<and> set (order (reshuffleAll rnd s)) = set (order s)
   \<and> length (order (reshuffleAll rnd s)) = length (order s)
   \<and> deck (reshuffleAll rnd s) = deck s
   \<and> cursor (reshuffleAll rnd s) = 0
   \<and> \<not> flipped (reshuffleAll rnd s)
   \<and> (order s = [] \<longrightarrow> order (reshuffleAll rnd s) = [] \<and> isDone (reshuffleAll rnd s))"
proof -
  have m: "mset (order (reshuffleAll rnd s)) = mset (order s)"
    by (simp add: reshuffleAll_def shuffleList_mset)
  have st: "set (order (reshuffleAll rnd s)) = set (order s)"
    using m by (rule mset_eq_setD)
  have l: "length (order (reshuffleAll rnd s)) = length (order s)"
    by (simp add: reshuffleAll_def shuffleList_length)
  have c: "cursor (reshuffleAll rnd s) = 0" by (simp add: reshuffleAll_def)
  have e: "order s = [] \<longrightarrow> order (reshuffleAll rnd s) = [] \<and> isDone (reshuffleAll rnd s)"
    using l c by (auto simp: isDone_def)
  have r: "deck (reshuffleAll rnd s) = deck s" "\<not> flipped (reshuffleAll rnd s)"
    by (simp_all add: reshuffleAll_def)
  show ?thesis using m st l c e r by blast
qed

theorem reshuffleAll_permutation_witness:
  "order (initSession noDraws (exampleDeck\<lparr>cards := []\<rparr>)) = []
   \<and> order (reshuffleAll noDraws (initSession noDraws (exampleDeck\<lparr>cards := []\<rparr>))) = []
   \<and> isDone (reshuffleAll noDraws (initSession noDraws (exampleDeck\<lparr>cards := []\<rparr>)))"
proof -
  have e: "order (initSession noDraws (exampleDeck\<lparr>cards := []\<rparr>)) = []"
    by (simp add: initSession_def deckEffect_def getActiveIndices_def mapi_def exampleDeck_def)
  show ?thesis
    using reshuffleAll_permutation [of noDraws "initSession noDraws (exampleDeck\<lparr>cards := []\<rparr>)"] e
    by simp
qed

section \<open>Rounding to double precision\<close>

lemma roundTiesToEven_error: "\<bar>of_int (roundTiesToEven x) - x\<bar> \<le> 1 / 2"
proof -
  define f where "f = \<lfloor>x\<rfloor>"
  have lo: "of_int f \<le> x" and hi: "x < of_int f + 1"
    unfolding f_def by linarith+
  consider (below) "x - of_int f < 1 / 2" | (above) "x - of_int f > 1 / 2"
    | (tie) "x - of_int f = 1 / 2"
    by linarith
  then show ?thesis
  proof cases
    case below
    then have "roundTiesToEven x = f" by (simp add: roundTiesToEven_def f_def)
    then show ?thesis using lo below by simp
  next
    case above
    then have "roundTiesToEven x = f + 1" by (simp add: roundTiesToEven_def f_def)
    then show ?thesis using hi above by simp
  next
    case tie
    then have "roundTiesToEven x = f \<or> roundTiesToEven x = f + 1"
      by (simp add: roundTiesToEven_def f_def Let_def)
    then show ?thesis using tie by auto
  qed
qed

lemma binExponent_lower:
  assumes "x \<noteq> 0"
  shows "2 powi (binExponent x) \<le> \<bar>x\<bar>"
proof -
  obtain p r where pr: "quotient_of \<bar>x\<bar> = (p, r)" by (cases "quotient_of \<bar>x\<bar>")
  have rpos: "r > 0" using pr by (rule quotient_of_denom_pos)
  have xe: "\<bar>x\<bar> = of_int p / of_int r" using pr by (rule quotient_of_div)
  have ppos: "p > 0"
  proof (rule ccontr)
    assume "\<not> p > 0"
    then have "of_int p / (of_int r :: rat) \<le> 0" using rpos
      by (simp add: divide_nonpos_pos)
    then show False using assms xe by simp
  qed
  define d where "d = bitlen p - bitlen r"
  show ?thesis
  proof (cases "2 powi d \<le> \<bar>x\<bar>")
    case True
    then show ?thesis by (simp add: binExponent_def pr d_def)
  next
    case False
    have bp: "2 ^ nat (bitlen p - 1) \<le> p" using bitlen_bounds [OF ppos] by simp
    have br: "r < 2 ^ nat (bitlen r)" using bitlen_bounds [OF rpos] by simp
    have bp1: "bitlen p \<ge> 1" using ppos by (simp add: bitlen_alt_def)
    have br0: "bitlen r \<ge> 0" by (rule bitlen_nonneg)
    have p': "(2::rat) powi (bitlen p - 1) \<le> of_int p"
    proof -
      have "(of_int (2 ^ nat (bitlen p - 1)) :: rat) \<le> of_int p"
        using bp by (simp only: of_int_le_iff)
      then show ?thesis using bp1 by (simp add: power_int_def)
    qed
    have r': "(of_int r :: rat) \<le> 2 powi (bitlen r)"
    proof -
      have "(of_int r :: rat) \<le> of_int (2 ^ nat (bitlen r))"
        using br by (simp only: of_int_le_iff)
      then show ?thesis using br0 by (simp add: power_int_def)
    qed
    have "(2::rat) powi (d - 1) = 2 powi (bitlen p - 1) / 2 powi (bitlen r)"
      by (simp add: d_def power_int_diff)
    also have "\<dots> \<le> of_int p / 2 powi (bitlen r)"
      using p' by (simp add: divide_right_mono)
    also have "\<dots> \<le> of_int p / of_int r"
      using r' rpos ppos by (simp add: divide_left_mono)
    finally have "(2::rat) powi (d - 1) \<le> \<bar>x\<bar>" using xe by simp
    then show ?thesis using False by (simp add: binExponent_def pr d_def)
  qed
qed

lemma binExponent_upper:
  assumes "x \<noteq> 0"
  shows "\<bar>x\<bar> < 2 powi (binExponent x + 1)"
proof -
  obtain p r where pr: "quotient_of \<bar>x\<bar> = (p, r)" by (cases "quotient_of \<bar>x\<bar>")
  have rpos: "r > 0" using pr by (rule quotient_of_denom_pos)
  have xe: "\<bar>x\<bar> = of_int p / of_int r" using pr by (rule quotient_of_div)
  have ppos: "p > 0"
  proof (rule ccontr)
    assume "\<not> p > 0"
    then have "of_int p / (of_int r :: rat) \<le> 0" using rpos
      by (simp add: divide_nonpos_pos)
    then show False using assms xe by simp
  qed
  define d where "d = bitlen p - bitlen r"
  show ?thesis
  proof (cases "2 powi d \<le> \<bar>x\<bar>")
    case False
    then show ?thesis by (simp add: binExponent_def pr d_def)
  next
    case True
    have bp: "p < 2 ^ nat (bitlen p)" using bitlen_bounds [OF ppos] by simp
    have br: "2 ^ nat (bitlen r - 1) \<le> r" using bitlen_bounds [OF rpos] by simp
    have bp0: "bitlen p \<ge> 0" by (rule bitlen_nonneg)
    have br1: "bitlen r \<ge> 1" using rpos by (simp add: bitlen_alt_def)
    have p': "(of_int p :: rat) < 2 powi (bitlen p)"
    proof -
      have "(of_int p :: rat) < of_int (2 ^ nat (bitlen p))"
        using bp by (simp only: of_int_less_iff)
      then show ?thesis using bp0 by (simp add: power_int_def)
    qed
    have r': "(2::rat) powi (bitlen r - 1) \<le> of_int r"
    proof -
      have "(of_int (2 ^ nat (bitlen r - 1)) :: rat) \<le> of_int r"
        using br by (simp only: of_int_le_iff)
      then show ?thesis using br1 by (simp add: power_int_def)
    qed
    have r0: "(0::rat) < 2 powi (bitlen r - 1)" by simp
    have "of_int p / of_int r \<le> of_int p / (2::rat) powi (bitlen r - 1)"
      using r' r0 ppos by (intro frac_le) simp_all
    also have "\<dots> < 2 powi (bitlen p) / 2 powi (bitlen r - 1)"
      using p' r0 by (simp add: divide_strict_right_mono)
    also have "\<dots> = 2 powi (d + 1)"
    proof -
      have e: "d + 1 = bitlen p - (bitlen r - 1)" by (simp add: d_def)
      have "(2::rat) powi (bitlen p - (bitlen r - 1)) = 2 powi (bitlen p) / 2 powi (bitlen r - 1)"
        by (rule power_int_diff) simp
      then show ?thesis by (simp only: e)
    qed
    finally have "\<bar>x\<bar> < 2 powi (d + 1)" using xe by simp
    then show ?thesis using True by (simp add: binExponent_def pr d_def)
  qed
qed

lemma toDouble_error: "\<bar>toDouble x - x\<bar> \<le> \<bar>x\<bar> / 2 ^ 53"
proof (cases "x = 0")
  case True
  then show ?thesis by (simp add: toDouble_def)
next
  case False
  define u :: rat where "u = 2 powi (binExponent x - 52)"
  have upos: "u > 0" by (simp add: u_def)
  have ule: "u \<le> \<bar>x\<bar> / 2 ^ 52"
  proof -
    have "u = 2 powi (binExponent x) / 2 ^ 52"
      by (simp add: u_def power_int_diff)
    then show ?thesis using binExponent_lower [OF False] by (simp add: divide_right_mono)
  qed
  have "toDouble x - x = (of_int (roundTiesToEven (x / u)) - x / u) * u"
    using False upos by (simp add: toDouble_def u_def Let_def algebra_simps)
  then have "\<bar>toDouble x - x\<bar> = \<bar>of_int (roundTiesToEven (x / u)) - x / u\<bar> * u"
    using upos by (simp add: abs_mult)
  also have "\<dots> \<le> (1 / 2) * u"
    using roundTiesToEven_error [of "x / u"] upos by (intro mult_right_mono) simp_all
  also have "\<dots> \<le> (1 / 2) * (\<bar>x\<bar> / 2 ^ 52)"
    using ule by simp
  finally show ?thesis by simp
qed

lemma percent_error:
  fixes l t :: int
  assumes "0 \<le> l" "l \<le> t" "0 < t"
  shows "\<bar>toDouble (toDouble (of_int l / of_int t) * 100) - 100 * of_int l / of_int t\<bar> < 1 / 4"
proof -
  define y :: rat where "y = of_int l / of_int t"
  define y' where "y' = toDouble y"
  define z where "z = y' * 100"
  have y0: "0 \<le> y" and y1: "y \<le> 1" using assms by (simp_all add: y_def)
  have e1: "\<bar>y' - y\<bar> \<le> 1 / 2 ^ 53"
  proof -
    have "\<bar>y' - y\<bar> \<le> \<bar>y\<bar> / 2 ^ 53" unfolding y'_def by (rule toDouble_error)
    also have "\<dots> \<le> 1 / 2 ^ 53" using y0 y1 by (simp add: divide_right_mono)
    finally show ?thesis .
  qed
  have zb: "\<bar>z\<bar> \<le> 101"
  proof -
    have "\<bar>y'\<bar> \<le> \<bar>y\<bar> + \<bar>y' - y\<bar>" by linarith
    also have "\<dots> \<le> 1 + 1 / 2 ^ 53" using e1 y0 y1 by simp
    finally have "\<bar>y'\<bar> \<le> 101 / 100" by simp
    then show ?thesis by (simp add: z_def abs_mult)
  qed
  have e2: "\<bar>toDouble z - z\<bar> \<le> 101 / 2 ^ 53"
  proof -
    have "\<bar>toDouble z - z\<bar> \<le> \<bar>z\<bar> / 2 ^ 53" by (rule toDouble_error)
    also have "\<dots> \<le> 101 / 2 ^ 53" using zb by (simp add: divide_right_mono)
    finally show ?thesis .
  qed
  have e3: "\<bar>z - 100 * y\<bar> \<le> 100 / 2 ^ 53"
  proof -
    have "\<bar>z - 100 * y\<bar> = 100 * \<bar>y' - y\<bar>" by (simp add: z_def abs_if)
    then show ?thesis using e1 by simp
  qed
  have "\<bar>toDouble z - 100 * y\<bar> \<le> \<bar>toDouble z - z\<bar> + \<bar>z - 100 * y\<bar>" by linarith
  also have "\<dots> \<le> 101 / 2 ^ 53 + 100 / 2 ^ 53" using e2 e3 by linarith
  also have "\<dots> < 1 / 4" by simp
  finally show ?thesis by (simp add: z_def y'_def y_def)
qed

lemma percent_bounds:
  fixes l t :: int
  assumes "0 \<le> l" "l \<le> t" "0 < t"
  shows "0 \<le> mathRound (toDouble (toDouble (of_int l / of_int t) * 100))"
    and "mathRound (toDouble (toDouble (of_int l / of_int t) * 100)) \<le> 100"
    and "\<bar>mathRound (toDouble (toDouble (of_int l / of_int t) * 100))
          - round (100 * of_int l / of_int t :: rat)\<bar> \<le> 1"
proof -
  define v where "v = toDouble (toDouble (of_int l / of_int t) * 100)"
  define w :: rat where "w = 100 * of_int l / of_int t"
  have vw: "\<bar>v - w\<bar> < 1 / 4" unfolding v_def w_def using assms by (rule percent_error)
  have "0 \<le> (of_int l / of_int t :: rat)" and "(of_int l / of_int t :: rat) \<le> 1"
    using assms by simp_all
  then have w0: "0 \<le> w" and w1: "w \<le> 100" by (simp_all add: w_def)
  have "0 \<le> v + 1 / 2" using vw w0 by linarith
  then show "0 \<le> mathRound (toDouble (toDouble (of_int l / of_int t) * 100))"
    unfolding mathRound_def v_def [symmetric] by simp
  have "v + 1 / 2 < 101" using vw w1 by linarith
  then show "mathRound (toDouble (toDouble (of_int l / of_int t) * 100)) \<le> 100"
    unfolding mathRound_def v_def [symmetric] by (simp add: floor_le_iff)
  have "\<lfloor>v + 1 / 2\<rfloor> \<le> \<lfloor>w + 1 / 2\<rfloor> + 1"
    using vw by linarith
  moreover have "\<lfloor>w + 1 / 2\<rfloor> \<le> \<lfloor>v + 1 / 2\<rfloor> + 1"
    using vw by linarith
  ultimately show "\<bar>mathRound (toDouble (toDouble (of_int l / of_int t) * 100))
          - round (100 * of_int l / of_int t :: rat)\<bar> \<le> 1"
    unfolding mathRound_def round_def v_def [symmetric] w_def [symmetric] by linarith
qed

lemma toDouble_1: "toDouble 1 = 1"
  by code_simp

lemma toDouble_100: "toDouble 100 = 100"
  by code_simp

lemma percent_none: "0 < t \<Longrightarrow> mathRound (jsTimes (jsDivide 0 t) 100) = 0"
  by (simp add: jsTimes_def jsDivide_def toDouble_def mathRound_def floor_eq_iff)

lemma percent_all: "mathRound (jsTimes (jsDivide 1 1) 100) = 100"
  by (simp add: jsTimes_def jsDivide_def toDouble_1 toDouble_100 mathRound_def floor_eq_iff)

lemma percent_23_of_40: "mathRound (jsTimes (jsDivide 23 40) 100) = 57"
  by code_simp

lemma specPercent_23_of_40: "specPercent 23 40 = 58"
  by (simp add: specPercent_def round_def floor_eq_iff)

section \<open>The progress percentage\<close>

lemma learned_bounds:
  assumes "cursorInv s" "orderInv s"
  shows "0 \<le> learned s \<and> learned s \<le> totalActive s"
  using assms orderInv_length [of s]
  by (auto simp: learned_def remaining_def isDone_def cursorInv_def)

lemma remaining_simps:
  "cursor s < int (length (order s)) \<Longrightarrow> remaining s = int (length (order s)) - cursor s"
  "cursor s \<ge> int (length (order s)) \<Longrightarrow> remaining s = 0"
  by (simp_all add: remaining_def isDone_def)

text \<open>
  C7 (amended). In every state the component renders, \<open>progressPercent\<close> is in
  \<open>[0, 100]\<close> and is \<open>0\<close> when \<open>totalActive = 0\<close> (the division is guarded), where
  \<open>remaining = length(order) - cursor\<close> while Active and \<open>0\<close> when Done, and
  \<open>learned = totalActive - remaining\<close> lies between \<open>0\<close> and \<open>totalActive\<close>. When
  \<open>totalActive \<noteq> 0\<close> it is \<open>Math.round\<close> of the double-precision product
  \<open>(learned / totalActive) * 100\<close>, which differs from the exactly computed
  \<open>round(100 * learned / totalActive)\<close> by at most \<open>1\<close>.
\<close>

theorem progressPercent_rendered:
  assumes "rendered s"
  shows "0 \<le> progressPercent s \<and> progressPercent s \<le> 100
       \<and> (totalActive s = 0 \<longrightarrow> progressPercent s = 0)
       \<and> remaining s = (if cursor s < int (length (order s))
                         then int (length (order s)) - cursor s else 0)
       \<and> learned s = totalActive s - remaining s
       \<and> 0 \<le> learned s \<and> learned s \<le> totalActive s
       \<and> progressPercent s =
            (if totalActive s = 0 then 0
             else mathRound (jsTimes (jsDivide (of_int (learned s)) (of_int (totalActive s))) 100))
       \<and> \<bar>progressPercent s - specPercent (learned s) (totalActive s)\<bar> \<le> 1"
proof -
  have inv: "cursorInv s" "orderInv s" using rendered_inv [OF assms] by simp_all
  have lb: "0 \<le> learned s" "learned s \<le> totalActive s"
    using learned_bounds [OF inv] by simp_all
  have rem: "remaining s = (if cursor s < int (length (order s))
                         then int (length (order s)) - cursor s else 0)"
    by (simp add: remaining_def isDone_def)
  have rng: "0 \<le> progressPercent s \<and> progressPercent s \<le> 100
       \<and> \<bar>progressPercent s - specPercent (learned s) (totalActive s)\<bar> \<le> 1"
  proof (cases "totalActive s = 0")
    case True
    then show ?thesis by (simp add: progressPercent_def specPercent_def)
  next
    case False
    then have tp: "0 < totalActive s" by (simp add: totalActive_def)
    show ?thesis
      using percent_bounds [OF lb tp] False
      by (simp add: progressPercent_def specPercent_def jsTimes_def jsDivide_def)
  qed
  show ?thesis
    using rng lb rem by (simp add: progressPercent_def learned_def)
qed

theorem progressPercent_rendered_witness:
  "rendered (initSession noDraws exampleDeck)
   \<and> progressPercent (initSession noDraws exampleDeck) \<le> 100
   \<and> learned (initSession noDraws exampleDeck) = 0
   \<and> totalActive (initSession noDraws exampleDeck) = 3
   \<and> rendered (initSession noDraws (exampleDeck\<lparr>cards := []\<rparr>))
   \<and> totalActive (initSession noDraws (exampleDeck\<lparr>cards := []\<rparr>)) = 0
   \<and> progressPercent (initSession noDraws (exampleDeck\<lparr>cards := []\<rparr>)) = 0"
proof -
  have r: "rendered (initSession noDraws exampleDeck)" by (intro d_stable r_init)
  have t: "totalActive (initSession noDraws exampleDeck) = 3"
    by (simp add: totalActive_def exampleDeck_init exampleDeck_active)
  have l: "learned (initSession noDraws exampleDeck) = 0"
    by (simp add: learned_def t) (simp add: exampleDeck_init remaining_simps)
  have r': "rendered (initSession noDraws (exampleDeck\<lparr>cards := []\<rparr>))"
    by (intro d_stable r_init)
  have t': "totalActive (initSession noDraws (exampleDeck\<lparr>cards := []\<rparr>)) = 0"
    by (simp add: totalActive_def initSession_def deckEffect_def getActiveIndices_def mapi_def
        Let_def)
  show ?thesis
    using progressPercent_rendered [OF r] progressPercent_rendered [OF r'] r r' t t' l by blast
qed

lemma getActiveIndices_replicate:
  "isActive c \<Longrightarrow> getActiveIndices (replicate n c) = map int [0..<n]"
  by (simp add: getActiveIndices_alt)

lemma fortyCards_active: "getActiveIndices (cards fortyCards) = map int [0..<40]"
proof -
  have "isActive \<lparr>q = ''question'', a = ''answer'', archived = None\<rparr>" by code_simp
  then show ?thesis by (simp add: fortyCards_def getActiveIndices_replicate)
qed

lemma fortyCardsAfter_state:
  "n \<le> 40 \<Longrightarrow> fortyCardsAfter n =
     \<lparr>deck = fortyCards, order = map int [0..<40], cursor = int n, flipped = False,
      sdirection = Q2A\<rparr>"
proof (induction n)
  case 0
  show ?case
    by (simp add: fortyCardsAfter_def initSession_def deckEffect_def fortyCards_active)
      (simp add: fortyCards_def)
next
  case (Suc n)
  then have "fortyCardsAfter n =
     \<lparr>deck = fortyCards, order = map int [0..<40], cursor = int n, flipped = False,
      sdirection = Q2A\<rparr>" by simp
  moreover have "fortyCardsAfter (Suc n) = goToNext (fortyCardsAfter n)"
    by (simp add: fortyCardsAfter_def)
  ultimately show ?case using Suc.prems by (simp add: goToNext_def isDone_def)
qed

lemma fortyCardsAfter_reachable: "reachable (fortyCardsAfter n)"
  unfolding fortyCardsAfter_def by (induction n) (simp_all add: r_init r_next)

theorem progressPercent_counterexample:
  "reachable (fortyCardsAfter 23)
   \<and> learned (fortyCardsAfter 23) = 23 \<and> totalActive (fortyCardsAfter 23) = 40
   \<and> progressPercent (fortyCardsAfter 23) = 57
   \<and> specPercent (learned (fortyCardsAfter 23)) (totalActive (fortyCardsAfter 23)) = 58"
proof -
  have s: "fortyCardsAfter 23 =
     \<lparr>deck = fortyCards, order = map int [0..<40], cursor = 23, flipped = False,
      sdirection = Q2A\<rparr>"
    using fortyCardsAfter_state [of 23] by simp
  have t: "totalActive (fortyCardsAfter 23) = 40"
    by (simp add: s totalActive_def fortyCards_active)
  have l: "learned (fortyCardsAfter 23) = 23"
    by (simp add: learned_def t) (simp add: s remaining_def isDone_def)
  have p: "progressPercent (fortyCardsAfter 23) = 57"
    by (simp add: progressPercent_def t l percent_23_of_40)
  show ?thesis
    using fortyCardsAfter_reachable [of 23] t l p by (simp add: specPercent_23_of_40)
qed

section \<open>The scenario of three active cards\<close>

lemma archiveCurrent_step:
  assumes "\<not> isDone s" "0 \<le> cursor s" "\<not> shuffle (defaults (deck s))"
  shows "archiveCurrent rnd s =
           \<lparr>deck = (deck s)\<lparr>cards := mapi (\<lambda>c i. if i = order s ! nat (cursor s)
                                                then c\<lparr>archived := Some True\<rparr> else c)
                                         (cards (deck s))\<rparr>,
            order = filter (\<lambda>i. i \<noteq> order s ! nat (cursor s)) (getActiveIndices (cards (deck s))),
            cursor = 0, flipped = False, sdirection = direction (defaults (deck s))\<rparr>"
  using assms
  by (simp add: archiveCurrent_def archiveCurrentCard_def currentIndex_def deckEffect_def
      Let_def getActiveIndices_archive)

lemma scenario_states:
  assumes act: "getActiveIndices (cards d) = [0, 1, 2]"
    and ns: "\<not> shuffle (defaults d)" and dir: "direction (defaults d) = Q2A"
  shows "initSession rnd d =
           \<lparr>deck = d, order = [0, 1, 2], cursor = 0, flipped = False, sdirection = Q2A\<rparr>"
    and "order (archiveCurrent rnd (initSession rnd d)) = [1, 2]"
    and "cursor (archiveCurrent rnd (initSession rnd d)) = 0"
    and "totalActive (archiveCurrent rnd (initSession rnd d)) = 2"
    and "order (archiveCurrent rnd (goToNext (archiveCurrent rnd (initSession rnd d)))) = [1]"
    and "cursor (archiveCurrent rnd (goToNext (archiveCurrent rnd (initSession rnd d)))) = 0"
    and "archiveCurrent rnd (goToNext (archiveCurrent rnd (goToNext
            (archiveCurrent rnd (initSession rnd d)))))
          = goToNext (archiveCurrent rnd (goToNext (archiveCurrent rnd (initSession rnd d))))"
    and "order (goToNext (archiveCurrent rnd (goToNext (archiveCurrent rnd (initSession rnd d))))) = [1]"
    and "cursor (goToNext (archiveCurrent rnd (goToNext (archiveCurrent rnd (initSession rnd d))))) = 1"
    and "totalActive (goToNext (archiveCurrent rnd (goToNext (archiveCurrent rnd (initSession rnd d))))) = 1"
proof -
  define d1 where "d1 = d\<lparr>cards := mapi (\<lambda>c i. if i = 0 then c\<lparr>archived := Some True\<rparr> else c) (cards d)\<rparr>"
  define d2 where "d2 = d1\<lparr>cards := mapi (\<lambda>c i. if i = 2 then c\<lparr>archived := Some True\<rparr> else c) (cards d1)\<rparr>"
  have a1: "getActiveIndices (cards d1) = [1, 2]"
    by (simp add: d1_def getActiveIndices_archive act)
  have a2: "getActiveIndices (cards d2) = [1]"
    by (simp add: d2_def getActiveIndices_archive a1)
  have df1: "defaults d1 = defaults d" by (simp add: d1_def)
  have df2: "defaults d2 = defaults d" by (simp add: d2_def d1_def)
  show s0: "initSession rnd d =
           \<lparr>deck = d, order = [0, 1, 2], cursor = 0, flipped = False, sdirection = Q2A\<rparr>"
    using ns dir by (simp add: initSession_def deckEffect_def act)
  have s1: "archiveCurrent rnd (initSession rnd d) =
           \<lparr>deck = d1, order = [1, 2], cursor = 0, flipped = False, sdirection = Q2A\<rparr>"
    unfolding s0 using ns dir
    by (subst archiveCurrent_step) (simp_all add: isDone_def act d1_def)
  have n1: "goToNext (archiveCurrent rnd (initSession rnd d)) =
           \<lparr>deck = d1, order = [1, 2], cursor = 1, flipped = False, sdirection = Q2A\<rparr>"
    unfolding s1 by (simp add: goToNext_def isDone_def)
  have s2: "archiveCurrent rnd (goToNext (archiveCurrent rnd (initSession rnd d))) =
           \<lparr>deck = d2, order = [1], cursor = 0, flipped = False, sdirection = Q2A\<rparr>"
    unfolding n1 using ns dir
    by (subst archiveCurrent_step) (simp_all add: isDone_def a1 d2_def df1)
  have n2: "goToNext (archiveCurrent rnd (goToNext (archiveCurrent rnd (initSession rnd d)))) =
           \<lparr>deck = d2, order = [1], cursor = 1, flipped = False, sdirection = Q2A\<rparr>"
    unfolding s2 by (simp add: goToNext_def isDone_def)
  show "order (archiveCurrent rnd (initSession rnd d)) = [1, 2]"
    and "cursor (archiveCurrent rnd (initSession rnd d)) = 0"
    and "totalActive (archiveCurrent rnd (initSession rnd d)) = 2"
    by (simp_all add: s1 totalActive_def a1)
  show "order (archiveCurrent rnd (goToNext (archiveCurrent rnd (initSession rnd d)))) = [1]"
    and "cursor (archiveCurrent rnd (goToNext (archiveCurrent rnd (initSession rnd d)))) = 0"
    by (simp_all add: s2)
  show "archiveCurrent rnd (goToNext (archiveCurrent rnd (goToNext
            (archiveCurrent rnd (initSession rnd d)))))
          = goToNext (archiveCurrent rnd (goToNext (archiveCurrent rnd (initSession rnd d))))"
    unfolding n2 by (simp add: archiveCurrent_def isDone_def)
  show "order (goToNext (archiveCurrent rnd (goToNext (archiveCurrent rnd (initSession rnd d))))) = [1]"
    and "cursor (goToNext (archiveCurrent rnd (goToNext (archiveCurrent rnd (initSession rnd d))))) = 1"
    and "totalActive (goToNext (archiveCurrent rnd (goToNext (archiveCurrent rnd (initSession rnd d))))) = 1"
    by (simp_all add: n2 totalActive_def a2)
qed

text \<open>The values of the three-card scenario, step by step.\<close>

lemma scenario_values:
  assumes "getActiveIndices (cards d) = [0, 1, 2]"
    and "\<not> shuffle (defaults d)" and "direction (defaults d) = Q2A"
  shows "order (initSession rnd d) = [0, 1, 2] \<and> cursor (initSession rnd d) = 0
       \<and> remaining (initSession rnd d) = 3 \<and> progressPercent (initSession rnd d) = 0
       \<and> order (scenarioAfterArchive rnd d) = [1, 2] \<and> cursor (scenarioAfterArchive rnd d) = 0
       \<and> remaining (scenarioAfterArchive rnd d) = 2
       \<and> totalActive (scenarioAfterArchive rnd d) = 2
       \<and> progressPercent (scenarioAfterArchive rnd d) = 0
       \<and> order (scenarioFinal rnd d) = [1] \<and> isDone (scenarioFinal rnd d)
       \<and> totalActive (scenarioFinal rnd d) = 1
       \<and> progressPercent (scenarioFinal rnd d) = 100"
proof -
  note st = scenario_states [OF assms, of rnd]
  have i: "remaining (initSession rnd d) = 3" "progressPercent (initSession rnd d) = 0"
    using assms(1)
    by (simp_all add: st(1) progressPercent_def learned_def totalActive_def remaining_simps
        percent_none)
  have o: "order (initSession rnd d) = [0, 1, 2]" "cursor (initSession rnd d) = 0"
    by (simp_all add: st(1))
  have a: "remaining (scenarioAfterArchive rnd d) = 2"
      "progressPercent (scenarioAfterArchive rnd d) = 0"
    unfolding scenarioAfterArchive_def
    by (simp_all add: progressPercent_def learned_def st(2-4) remaining_simps percent_none)
  have f: "scenarioFinal rnd d
        = goToNext (archiveCurrent rnd (goToNext (archiveCurrent rnd (initSession rnd d))))"
    by (simp add: scenarioFinal_def scenarioAfterArchive_def st(7))
  have g: "isDone (scenarioFinal rnd d)" "progressPercent (scenarioFinal rnd d) = 100"
    unfolding f
    by (simp_all add: isDone_def progressPercent_def learned_def st(8-10) remaining_simps
        percent_all)
  show ?thesis
    using o i a g by (simp add: st(2-) f scenarioAfterArchive_def)
qed

text \<open>
  C1 (amended). For a deck whose active cards are the cards 0, 1 and 2, with the defaults
  \<open>shuffle = false\<close> and \<open>direction = Q2A\<close>: session initialisation yields
  \<open>order = [0,1,2]\<close>, \<open>cursor = 0\<close>, \<open>remaining = 3\<close>, \<open>progressPercent = 0\<close>. After one
  \<open>archiveCurrent\<close> the state is \<open>order = [1,2]\<close>, \<open>cursor = 0\<close>, \<open>remaining = 2\<close>, and
  \<open>progressPercent = 0\<close>, since \<open>totalActive\<close> is counted on the updated deck and is \<open>2\<close>.
  After two further cycles of \<open>advance\<close> then \<open>archiveCurrent\<close>, \<open>order = [1]\<close>: the
  first cycle archives card 2, the second \<open>advance\<close> moves past card 1 to Done, where
  \<open>archiveCurrent\<close> does nothing. The session is Done, \<open>totalActive = 1\<close> and
  \<open>progressPercent = 100\<close>.
\<close>

theorem scenario_three_active_cards:
  assumes "getActiveIndices (cards d) = [0, 1, 2]"
    and "\<not> shuffle (defaults d)" and "direction (defaults d) = Q2A"
  shows "order (initSession rnd d) = [0, 1, 2] \<and> cursor (initSession rnd d) = 0
       \<and> remaining (initSession rnd d) = 3 \<and> progressPercent (initSession rnd d) = 0
       \<and> order (scenarioAfterArchive rnd d) = [1, 2] \<and> cursor (scenarioAfterArchive rnd d) = 0
       \<and> remaining (scenarioAfterArchive rnd d) = 2
       \<and> totalActive (scenarioAfterArchive rnd d) = 2
       \<and> progressPercent (scenarioAfterArchive rnd d) = 0
       \<and> order (scenarioFinal rnd d) = [1] \<and> isDone (scenarioFinal rnd d)
       \<and> totalActive (scenarioFinal rnd d) = 1
       \<and> progressPercent (scenarioFinal rnd d) = 100"
  using assms by (rule scenario_values)

theorem scenario_three_active_cards_witness:
  "getActiveIndices (cards exampleDeck) = [0, 1, 2]
   \<and> \<not> shuffle (defaults exampleDeck) \<and> direction (defaults exampleDeck) = Q2A
   \<and> order (initSession noDraws exampleDeck) = [0, 1, 2]
   \<and> progressPercent (scenarioAfterArchive noDraws exampleDeck) = 0
   \<and> order (scenarioFinal noDraws exampleDeck) = [1]
   \<and> progressPercent (scenarioFinal noDraws exampleDeck) = 100"
  using scenario_three_active_cards [OF exampleDeck_active exampleDeck_defaults, of noDraws]
    exampleDeck_active exampleDeck_defaults
  by simp

theorem scenario_counterexample:
  "getActiveIndices (cards exampleDeck) = [0, 1, 2]
   \<and> \<not> shuffle (defaults exampleDeck) \<and> direction (defaults exampleDeck) = Q2A
   \<and> progressPercent (scenarioAfterArchive noDraws exampleDeck) \<noteq> 33
   \<and> order (scenarioFinal noDraws exampleDeck) \<noteq> []"
  using scenario_values [OF exampleDeck_active exampleDeck_defaults, of noDraws]
    exampleDeck_active exampleDeck_defaults
  by simp

section \<open>Import, export and load\<close>

lemma importDocument_accepted:
  "importDocument ns raw = Inr st' \<Longrightarrow> \<exists>doc. raw = Parsed doc \<and> schemaAccepted doc"
  by (auto simp: importDocument_def schemaAccepted_def bindE_def
      split: rawDocument.splits sum.splits if_splits option.splits json.splits)

lemma importDocument_rejects:
  "raw = Malformed \<or> (raw = Parsed doc \<and> \<not> schemaAccepted doc)
     \<Longrightarrow> \<exists>e. importDocument ns raw = Inl e"
  using importDocument_accepted [of ns raw] by (cases "importDocument ns raw") auto

text \<open>
  C8. When the supplied document is malformed JSON, or its \<open>schemaVersion\<close> is not \<open>1\<close>, or
  its \<open>cards\<close> field is not a sequence, the import is aborted as a whole: the working
  deck (name, cards, direction, shuffle) is exactly what it was, and the notice is
  "Import failed".
\<close>

theorem import_aborts_atomically:
  "raw = Malformed \<or> (raw = Parsed doc \<and> \<not> schemaAccepted doc)
     \<Longrightarrow> importJSON ns raw st = (st, ''Import failed'')"
  using importDocument_rejects [of raw doc ns] by (auto simp: importJSON_def)

theorem import_aborts_atomically_witness:
  "\<not> schemaAccepted versionTwoDocument
   \<and> importJSON integerString (Parsed versionTwoDocument) (deckState exampleDeck)
       = (deckState exampleDeck, ''Import failed'')
   \<and> importJSON integerString Malformed (deckState exampleDeck)
       = (deckState exampleDeck, ''Import failed'')
   \<and> \<not> schemaAccepted noCardsDocument
   \<and> importJSON integerString (Parsed noCardsDocument) (deckState exampleDeck)
       = (deckState exampleDeck, ''Import failed'')"
proof -
  have n: "\<not> schemaAccepted versionTwoDocument"
    by (simp add: schemaAccepted_def versionTwoDocument_def)
  have m: "\<not> schemaAccepted noCardsDocument"
    by (simp add: schemaAccepted_def noCardsDocument_def)
  show ?thesis
    using import_aborts_atomically
            [of "Parsed versionTwoDocument" versionTwoDocument integerString "deckState exampleDeck"]
      import_aborts_atomically
            [of Malformed versionTwoDocument integerString "deckState exampleDeck"]
      import_aborts_atomically
            [of "Parsed noCardsDocument" noCardsDocument integerString "deckState exampleDeck"]
      n m
    by simp
qed

text \<open>
  C9. On every successful import, when the document's \<open>name\<close> is missing or the empty
  string, the name of the resulting working deck is "Imported Set"; the name after a
  successful import is never the empty string (it is truthy), and the notice is
  "Set imported".
\<close>

theorem imported_name_never_empty:
  assumes "importDocument ns (Parsed doc) = Inr st'"
  shows "(getProp doc ''name'' = Inr None \<or> getProp doc ''name'' = Inr (Some (JString []))
            \<longrightarrow> stName st' = JString ''Imported Set'')
       \<and> stName st' \<noteq> JString []
       \<and> truthy (Some (stName st'))
       \<and> importJSON ns (Parsed doc) st = (st', ''Set imported'')"
  using assms
  by (auto simp: importJSON_def importDocument_def bindE_def
      split: sum.splits if_splits option.splits json.splits)

theorem imported_name_never_empty_witness:
  "importDocument integerString (Parsed unnamedDocument)
     = Inr \<lparr>stName = JString ''Imported Set'', stCards = [], stDirection = Q2A,
            stShuffle = False\<rparr>
   \<and> getProp unnamedDocument ''name'' = Inr (Some (JString []))
   \<and> importJSON integerString (Parsed unnamedDocument) (deckState exampleDeck)
       = (\<lparr>stName = JString ''Imported Set'', stCards = [], stDirection = Q2A,
            stShuffle = False\<rparr>, ''Set imported'')"
proof -
  have i: "importDocument integerString (Parsed unnamedDocument)
     = Inr \<lparr>stName = JString ''Imported Set'', stCards = [], stDirection = Q2A,
            stShuffle = False\<rparr>"
    by (simp add: importDocument_def unnamedDocument_def bindE_def)
  show ?thesis
    using imported_name_never_empty [OF i, of "deckState exampleDeck"] i
    by (simp add: unnamedDocument_def)
qed

lemma importCard_cardDocument: "importCard ns (cardDocument c) = Inr (archivedDefault c)"
  by (cases "archived c")
    (simp_all add: importCard_def cardDocument_def archivedDefault_def bindE_def stringOrEmpty_def)

lemma importCards_cardDocument:
  "importCards ns (map cardDocument cs) = Inr (map archivedDefault cs)"
  by (induction cs) (simp_all add: importCard_cardDocument bindE_def)

text \<open>
  C3 (amended). Round trip: for every deck whose name is not empty, exporting it and
  importing the produced document yields the working deck of that deck, with each
  absent \<open>archived\<close> field coerced to \<open>false\<close>, and the notice "Set imported".
\<close>

theorem export_import_roundtrip:
  "name d \<noteq> [] \<Longrightarrow>
     importJSON ns (Parsed (deckDocument d)) st
       = (deckState (d\<lparr>cards := map archivedDefault (cards d)\<rparr>), ''Set imported'')"
  by (cases "direction (defaults d)")
    (simp_all add: importJSON_def importDocument_def deckDocument_def deckState_def bindE_def
      importCards_cardDocument)

theorem export_import_roundtrip_witness:
  "name exampleDeck \<noteq> []
   \<and> importJSON integerString (Parsed (deckDocument exampleDeck)) (deckState fortyCards)
       = (\<lparr>stName = JString ''Capitals'',
           stCards = [\<lparr>q = ''France'', a = ''Paris'', archived = Some False\<rparr>,
                      \<lparr>q = ''Italy'', a = ''Rome'', archived = Some False\<rparr>,
                      \<lparr>q = ''Spain'', a = ''Madrid'', archived = Some False\<rparr>],
           stDirection = Q2A, stShuffle = False\<rparr>, ''Set imported'')"
proof -
  have n: "name exampleDeck \<noteq> []" by (simp add: exampleDeck_def)
  show ?thesis
    using export_import_roundtrip [OF n, of integerString "deckState fortyCards"] n
    by (simp add: deckState_def archivedDefault_def exampleDeck_def)
qed

theorem export_import_counterexample:
  "stName (fst (importJSON integerString (Parsed (deckDocument untitledDeck))
                  (deckState untitledDeck))) = JString ''Imported Set''
   \<and> fst (importJSON integerString (Parsed (deckDocument untitledDeck)) (deckState untitledDeck))
       \<noteq> deckState (untitledDeck\<lparr>cards := map archivedDefault (cards untitledDeck)\<rparr>)"
  by (simp add: importJSON_def importDocument_def deckDocument_def cardDocument_def
      untitledDeck_def bindE_def importCard_def stringOrEmpty_def deckState_def)

text \<open>
  C2 (the code departs from the claim). A stored document with \<open>schemaVersion\<close> 1 and no
  \<open>cards\<close> fails the schema test and is refused by the import path, but \<open>loadDeck\<close>
  returns it, and \<open>App\<close> adopts it as the current deck.
\<close>

theorem loadDeck_adopts_document_without_cards:
  "loadDeck (Some (Parsed noCardsDocument)) = Some noCardsDocument
   \<and> \<not> schemaAccepted noCardsDocument
   \<and> importDocument integerString (Parsed noCardsDocument) = Inl InvalidSchema"
  by (simp add: loadDeck_def noCardsDocument_def schemaAccepted_def importDocument_def bindE_def)

end
